theory Spec2Isabelle
  imports Complex_Main "HOL-Library.AList"
begin

section \<open>Interactive widgets and the focus manager\<close>

text \<open>
  The objects of the toolkit live in a store (\<open>heap\<close>) indexed by object reference
  (a natural number); two references are the same object iff they are equal, which is what
  the source's \<open>===\<close> on objects tests. A widget is of one of these classes:
  \<^item> \<open>Component\<close>: a plain \<open>InteractiveUIComponent\<close>, with the base class's own \<open>focus\<close>,
    \<open>loseFocus\<close> and \<open>setEnabled\<close>, the empty default hooks and no input handler;
  \<^item> \<open>Button\<close>: \<open>UIButton\<close> and \<open>UISpriteButton\<close> (uiButton.ts), modelled in full;
  \<^item> \<open>Checkbox\<close>: \<open>UICheckbox\<close> and \<open>UISpriteCheckbox\<close>; \<open>Switch\<close>: \<open>UISwitch\<close> and
    \<open>UISpriteSwitch\<close>; \<open>Slider\<close>: \<open>UISlider\<close> and \<open>UISpriteSlider\<close>; \<open>TextInput\<close>:
    \<open>UITextInput\<close>; \<open>Numeric\<close>: \<open>UINumeric\<close>. Of these the store keeps what the focus
    manager reads and what decides the focus: the flags \<open>enabled\<close> and \<open>isFocused\<close>, the tab-stop index
    and the back-reference, as the class's own \<open>focus\<close>, \<open>loseFocus\<close>, \<open>setEnabled\<close> and
    \<open>onPointerDown\<close> read and write them. Their values (checked, slider value, text and
    editing buffer) and the display state of the two inputs are not part of the store.
  Every \<open>emitter.emit\<close> call of a button and every run of its click callback is appended
  to the log \<open>emitted\<close>, in call order; of the other classes the log holds the focus,
  pointer-down and enable events. No listener is attached, so emitting has no other effect.
\<close>

datatype UIButtonState = Idle | Hovered | Pressed | Disabled

datatype ui_event =
    UIButtonClicked | UIButtonDown | UIButtonUp | UIButtonHovered | UIButtonUnhovered
  | UIButtonDisabled | UIButtonEnabled | UIButtonFocused | UIButtonUnfocused
  | CallbackRun
  | UIFocused | UIUnfocused | UIDown | UIEnabled | UIDisabled

text \<open>
  The last five are the events of a checkbox, switch, slider, text input or numeric input:
  the event of that name of the widget's own class (\<open>UISwitchFocused\<close> for a switch, and so
  on).
\<close>

datatype widget_class = Component | Button | Checkbox | Switch | Slider | TextInput | Numeric

datatype key =
    Space | Enter | Escape | Backspace | Delete | Left | Right | Home | End
  | ArrowUp | ArrowDown | OtherKey

record widget =
  cls :: widget_class
  tabStopIndex :: int
  enabled :: bool
  isFocused :: bool
  manager :: bool
  state :: UIButtonState
  isHovered :: bool
  isPressed :: bool
  ignoreLeave :: bool

text \<open>
  \<open>manager\<close> is the back-reference set by \<open>setManager\<close>: there is one focus manager in the
  model, so the field only records whether the reference is set. \<open>components\<close> is the
  manager's \<open>Map\<close> from tab index to widget, as an association list in insertion order.
\<close>

record world =
  heap :: "nat \<Rightarrow> widget"
  currentTabIndex :: int
  components :: "(int \<times> nat) list"
  emitted :: "(nat \<times> ui_event) list"

definition upd :: "nat \<Rightarrow> (widget \<Rightarrow> widget) \<Rightarrow> world \<Rightarrow> world" where
  "upd c f w = w\<lparr>heap := (heap w)(c := f (heap w c))\<rparr>"

definition emit :: "nat \<Rightarrow> ui_event \<Rightarrow> world \<Rightarrow> world" where
  "emit c e w = w\<lparr>emitted := emitted w @ [(c, e)]\<rparr>"

subsection \<open>UIButton.updateState\<close>

definition updateState :: "widget \<Rightarrow> widget" where
  "updateState x =
     (if \<not> enabled x then x\<lparr>state := Disabled\<rparr>
      else if isPressed x then x\<lparr>state := Pressed\<rparr>
      else if isHovered x then x\<lparr>state := Hovered\<rparr>
      else x\<lparr>state := Idle\<rparr>)"

subsection \<open>focus and loseFocus\<close>

text \<open>
  \<open>InteractiveUIComponent.focus\<close> returns at once on a disabled widget and otherwise sets
  the flag if it is not set (the hook \<open>onFocus\<close> does nothing). Every class overrides it:
  \<open>UIButton\<close> and \<open>UICheckbox\<close> keep the guard and set the flag and emit in any case;
  \<open>UITextInput\<close> and \<open>UINumeric\<close> keep the guard and return when the flag is set already;
  \<open>UISwitch\<close> sets the flag and emits without any check; \<open>UISlider\<close> checks the flag but
  not \<open>enabled\<close>. \<open>loseFocus\<close> mirrors \<open>focus\<close> in each class. (\<open>UINumeric\<close> also swaps
  its editing buffer in and out, which is modelled with the numeric input below.)
\<close>

definition focus :: "nat \<Rightarrow> world \<Rightarrow> world" where
  "focus c w =
     (let x = heap w c in
      case cls x of
        Component \<Rightarrow>
          (if \<not> enabled x then w
           else if \<not> isFocused x then upd c (\<lambda>x. x\<lparr>isFocused := True\<rparr>) w
           else w)
      | Button \<Rightarrow>
          (if \<not> enabled x then w
           else upd c updateState
                  (emit c UIButtonFocused (upd c (\<lambda>x. x\<lparr>isFocused := True\<rparr>) w)))
      | Checkbox \<Rightarrow>
          (if \<not> enabled x then w
           else emit c UIFocused (upd c (\<lambda>x. x\<lparr>isFocused := True\<rparr>) w))
      | Switch \<Rightarrow> emit c UIFocused (upd c (\<lambda>x. x\<lparr>isFocused := True\<rparr>) w)
      | Slider \<Rightarrow>
          (if \<not> isFocused x then emit c UIFocused (upd c (\<lambda>x. x\<lparr>isFocused := True\<rparr>) w)
           else w)
      | TextInput \<Rightarrow>
          (if \<not> enabled x then w
           else if isFocused x then w
           else emit c UIFocused (upd c (\<lambda>x. x\<lparr>isFocused := True\<rparr>) w))
      | Numeric \<Rightarrow>
          (if \<not> enabled x then w
           else if isFocused x then w
           else emit c UIFocused (upd c (\<lambda>x. x\<lparr>isFocused := True\<rparr>) w)))"

definition loseFocus :: "nat \<Rightarrow> world \<Rightarrow> world" where
  "loseFocus c w =
     (let x = heap w c in
      case cls x of
        Component \<Rightarrow>
          (if \<not> enabled x then w
           else if isFocused x then upd c (\<lambda>x. x\<lparr>isFocused := False\<rparr>) w
           else w)
      | Button \<Rightarrow>
          (if \<not> enabled x then w
           else upd c updateState
                  (emit c UIButtonUnfocused (upd c (\<lambda>x. x\<lparr>isFocused := False\<rparr>) w)))
      | Checkbox \<Rightarrow>
          (if \<not> enabled x then w
           else emit c UIUnfocused (upd c (\<lambda>x. x\<lparr>isFocused := False\<rparr>) w))
      | Switch \<Rightarrow> emit c UIUnfocused (upd c (\<lambda>x. x\<lparr>isFocused := False\<rparr>) w)
      | Slider \<Rightarrow>
          (if isFocused x then emit c UIUnfocused (upd c (\<lambda>x. x\<lparr>isFocused := False\<rparr>) w)
           else w)
      | TextInput \<Rightarrow>
          (if \<not> enabled x then w
           else if \<not> isFocused x then w
           else emit c UIUnfocused (upd c (\<lambda>x. x\<lparr>isFocused := False\<rparr>) w))
      | Numeric \<Rightarrow>
          (if \<not> enabled x then w
           else if \<not> isFocused x then w
           else emit c UIUnfocused (upd c (\<lambda>x. x\<lparr>isFocused := False\<rparr>) w)))"

text \<open>
  A widget takes and gives up the focus when its \<open>focus\<close> and \<open>loseFocus\<close> get past their
  guard: it is enabled, or it is a switch or a slider, which have no such guard.
\<close>

definition takes_focus :: "widget \<Rightarrow> bool" where
  "takes_focus x = (enabled x \<or> cls x = Switch \<or> cls x = Slider)"

subsection \<open>UIFocusManager\<close>

text \<open>The getter \<open>focused\<close>: \<open>components.get(currentTabIndex)\<close>.\<close>

definition focused :: "world \<Rightarrow> nat option" where
  "focused w = map_of (components w) (currentTabIndex w)"

definition setManager :: "nat \<Rightarrow> world \<Rightarrow> world" where
  "setManager c w = upd c (\<lambda>x. x\<lparr>manager := True\<rparr>) w"

text \<open>
  \<open>register\<close> and \<open>unregister\<close> take one widget or an array; both are a loop over the
  array, a single widget being the one-element array. The duplicate warning of
  \<open>register\<close> only writes to the console.
\<close>

definition register_one :: "nat \<Rightarrow> world \<Rightarrow> world" where
  "register_one c w =
     setManager c
       (w\<lparr>components := AList.update (tabStopIndex (heap w c)) c (components w)\<rparr>)"

definition register :: "nat list \<Rightarrow> world \<Rightarrow> world" where
  "register cs w = fold register_one cs w"

definition clearFocus :: "world \<Rightarrow> world" where
  "clearFocus w =
     (case focused w of None \<Rightarrow> w | Some p \<Rightarrow> loseFocus p w)\<lparr>currentTabIndex := - 1\<rparr>"

definition unregister_one :: "nat \<Rightarrow> world \<Rightarrow> world" where
  "unregister_one c w =
     (let w1 = (if currentTabIndex w = tabStopIndex (heap w c) then clearFocus w else w)
      in w1\<lparr>components := AList.delete (tabStopIndex (heap w1 c)) (components w1)\<rparr>)"

definition unregister :: "nat list \<Rightarrow> world \<Rightarrow> world" where
  "unregister cs w = fold unregister_one cs w"

definition setFocus :: "nat \<Rightarrow> world \<Rightarrow> world" where
  "setFocus c w =
     (if focused w = Some c then w
      else
        let w1 = (case focused w of None \<Rightarrow> w | Some p \<Rightarrow> loseFocus p w);
            w2 = w1\<lparr>currentTabIndex := tabStopIndex (heap w1 c)\<rparr>
        in focus c w2)"

text \<open>
  The array operations of \<open>moveFocus\<close>: \<open>indexOf\<close> is \<open>- 1\<close> for a missing element, the
  remainder \<open>%\<close> takes the sign of the dividend, and reading an array outside its bounds is
  \<open>undefined\<close> (\<open>None\<close>), for which \<open>components.get\<close> finds nothing.
\<close>

fun indexOf :: "'a list \<Rightarrow> 'a \<Rightarrow> int" where
  "indexOf [] k = - 1"
| "indexOf (x # xs) k = (if x = k then 0 else (let i = indexOf xs k in if i = - 1 then - 1 else i + 1))"

definition js_rem :: "int \<Rightarrow> int \<Rightarrow> int" where
  "js_rem a n = (if a < 0 then - ((- a) mod n) else a mod n)"

definition array_at :: "'a list \<Rightarrow> int \<Rightarrow> 'a option" where
  "array_at xs i = (if 0 \<le> i \<and> i < int (length xs) then Some (xs ! nat i) else None)"

definition nextIndex :: "bool \<Rightarrow> world \<Rightarrow> int option" where
  "nextIndex forward w =
     (let sorted = sort (map fst (components w)) in
      if currentTabIndex w = - 1 then
        (if forward then array_at sorted 0 else array_at sorted (int (length sorted) - 1))
      else
        let currentPos = indexOf sorted (currentTabIndex w) in
        if forward then array_at sorted (js_rem (currentPos + 1) (int (length sorted)))
        else array_at sorted (js_rem (currentPos - 1 + int (length sorted)) (int (length sorted))))"

definition moveFocus :: "bool \<Rightarrow> world \<Rightarrow> world" where
  "moveFocus forward w =
     (if length (components w) = 0 then w
      else
        case nextIndex forward w of
          None \<Rightarrow> w
        | Some k \<Rightarrow> (case map_of (components w) k of None \<Rightarrow> w | Some c \<Rightarrow> setFocus c w))"

subsection \<open>setEnabled\<close>

text \<open>
  \<open>UIComponent.setEnabled\<close> flips the flag and runs the hook; \<open>InteractiveUIComponent\<close>
  first drops the focus of a focused widget that is being disabled. The hooks of the
  classes: \<open>UIButton.onDisabled\<close> clears the hover and focus flags, \<open>UICheckbox.onDisabled\<close>
  the focus flag; \<open>UITextInput\<close> and \<open>UINumeric\<close> call \<open>loseFocus\<close> when the flag is still
  set; \<open>UISlider\<close> only stops dragging; \<open>UISwitch\<close> has no hook. \<open>UIButton.setEnabled\<close>
  recomputes the state afterwards, \<open>UISwitch.setEnabled\<close> emits its event afterwards,
  whether or not the value changed.
\<close>

definition onEnabled :: "nat \<Rightarrow> world \<Rightarrow> world" where
  "onEnabled c w =
     (case cls (heap w c) of
        Component \<Rightarrow> w
      | Button \<Rightarrow> emit c UIButtonEnabled w
      | Switch \<Rightarrow> w
      | _ \<Rightarrow> emit c UIEnabled w)"

definition onDisabled :: "nat \<Rightarrow> world \<Rightarrow> world" where
  "onDisabled c w =
     (case cls (heap w c) of
        Component \<Rightarrow> w
      | Button \<Rightarrow>
          emit c UIButtonDisabled (upd c (\<lambda>x. x\<lparr>isHovered := False, isFocused := False\<rparr>) w)
      | Checkbox \<Rightarrow> emit c UIDisabled (upd c (\<lambda>x. x\<lparr>isFocused := False\<rparr>) w)
      | Switch \<Rightarrow> w
      | Slider \<Rightarrow> emit c UIDisabled w
      | TextInput \<Rightarrow>
          emit c UIDisabled (if isFocused (heap w c) then loseFocus c w else w)
      | Numeric \<Rightarrow>
          emit c UIDisabled (if isFocused (heap w c) then loseFocus c w else w))"

definition UIComponent_setEnabled :: "nat \<Rightarrow> bool \<Rightarrow> world \<Rightarrow> world" where
  "UIComponent_setEnabled c v w =
     (if v \<noteq> enabled (heap w c) then
        (let w1 = upd c (\<lambda>x. x\<lparr>enabled := v\<rparr>) w
         in if v then onEnabled c w1 else onDisabled c w1)
      else w)"

definition Interactive_setEnabled :: "nat \<Rightarrow> bool \<Rightarrow> world \<Rightarrow> world" where
  "Interactive_setEnabled c v w =
     (if v \<noteq> enabled (heap w c) then
        (let w1 = (if \<not> v \<and> isFocused (heap w c) then loseFocus c w else w)
         in UIComponent_setEnabled c v w1)
      else w)"

definition setEnabled :: "nat \<Rightarrow> bool \<Rightarrow> world \<Rightarrow> world" where
  "setEnabled c v w =
     (case cls (heap w c) of
        Button \<Rightarrow> upd c updateState (Interactive_setEnabled c v w)
      | Switch \<Rightarrow> emit c (if v then UIEnabled else UIDisabled) (Interactive_setEnabled c v w)
      | _ \<Rightarrow> Interactive_setEnabled c v w)"

subsection \<open>The pointer and keyboard handlers\<close>

text \<open>
  The handlers of \<open>UIButton\<close> are registered by \<open>UIButton.onAdd\<close>. The timer that
  \<open>onClick\<close> starts (\<open>setTimeout\<close>, 50 ms) is the separate step \<open>leaveTimerFired\<close>. Of the
  other classes only \<open>onPointerDown\<close> is modelled, the one handler that reaches the focus
  manager; a plain component has no handler.
\<close>

definition onHover :: "nat \<Rightarrow> world \<Rightarrow> world" where
  "onHover c w =
     (if cls (heap w c) \<noteq> Button \<or> \<not> enabled (heap w c) then w
      else upd c updateState
             (emit c UIButtonHovered (upd c (\<lambda>x. x\<lparr>isHovered := True\<rparr>) w)))"

definition onUnhover :: "nat \<Rightarrow> world \<Rightarrow> world" where
  "onUnhover c w =
     (if cls (heap w c) \<noteq> Button \<or> \<not> enabled (heap w c) then w
      else if ignoreLeave (heap w c) then w
      else upd c updateState
             (upd c (\<lambda>x. x\<lparr>isHovered := False\<rparr>) (emit c UIButtonUnhovered w)))"

text \<open>The first three statements of \<open>onPointerDown\<close> and \<open>onKeyDown\<close>: press, emit, recompute.\<close>

definition press :: "nat \<Rightarrow> world \<Rightarrow> world" where
  "press c w =
     upd c updateState (emit c UIButtonDown (upd c (\<lambda>x. x\<lparr>isPressed := True\<rparr>) w))"

text \<open>
  What \<open>onPointerDown\<close> does before it turns to the manager: a button is pressed; a
  checkbox, a switch and a slider emit their down event (the slider also starts dragging
  and takes its value from the pointer); a text input and a numeric input call their own
  \<open>focus\<close>.
\<close>

definition beforeSetFocus :: "nat \<Rightarrow> world \<Rightarrow> world" where
  "beforeSetFocus c w =
     (case cls (heap w c) of
        Component \<Rightarrow> w
      | Button \<Rightarrow> press c w
      | Checkbox \<Rightarrow> emit c UIDown w
      | Switch \<Rightarrow> emit c UIDown w
      | Slider \<Rightarrow> emit c UIDown w
      | TextInput \<Rightarrow> focus c w
      | Numeric \<Rightarrow> focus c w)"

definition onPointerDown :: "nat \<Rightarrow> world \<Rightarrow> world" where
  "onPointerDown c w =
     (if cls (heap w c) = Component \<or> \<not> enabled (heap w c) then w
      else
        let w1 = beforeSetFocus c w
        in if manager (heap w1 c) then setFocus c w1 else w1)"

definition onClick :: "nat \<Rightarrow> world \<Rightarrow> world" where
  "onClick c w =
     (if cls (heap w c) \<noteq> Button \<or> \<not> enabled (heap w c) then w
      else
        let wasPressed = isPressed (heap w c);
            w1 = upd c (\<lambda>x. x\<lparr>isPressed := False\<rparr>) w;
            w2 = upd c (\<lambda>x. x\<lparr>ignoreLeave := True\<rparr>) w1;
            w3 = upd c updateState w2;
            w4 = emit c UIButtonUp w3
        in if wasPressed \<and> isHovered (heap w4 c)
           then emit c CallbackRun (emit c UIButtonClicked w4)
           else w4)"

definition leaveTimerFired :: "nat \<Rightarrow> world \<Rightarrow> world" where
  "leaveTimerFired c w = upd c (\<lambda>x. x\<lparr>ignoreLeave := False\<rparr>) w"

definition onKeyDown :: "key \<Rightarrow> nat \<Rightarrow> world \<Rightarrow> world" where
  "onKeyDown k c w =
     (if cls (heap w c) \<noteq> Button \<or> \<not> enabled (heap w c) then w
      else if \<not> isFocused (heap w c) then w
      else if k \<noteq> Space \<and> k \<noteq> Enter then w
      else press c w)"

definition onKeyUp :: "key \<Rightarrow> nat \<Rightarrow> world \<Rightarrow> world" where
  "onKeyUp k c w =
     (if cls (heap w c) \<noteq> Button \<or> \<not> enabled (heap w c) then w
      else if \<not> isFocused (heap w c) then w
      else if k \<noteq> Space \<and> k \<noteq> Enter then w
      else
        let w1 = emit c UIButtonUp w;
            w2 = (if isPressed (heap w1 c)
                  then emit c CallbackRun (emit c UIButtonClicked w1) else w1)
        in upd c updateState (upd c (\<lambda>x. x\<lparr>isPressed := False\<rparr>) w2))"

subsection \<open>Sequences of calls\<close>

datatype call =
    Register "nat list" | Unregister "nat list" | SetFocus nat | ClearFocus
  | MoveFocus bool | PointerDown nat

fun step :: "call \<Rightarrow> world \<Rightarrow> world" where
  "step (Register cs) w = register cs w"
| "step (Unregister cs) w = unregister cs w"
| "step (SetFocus c) w = setFocus c w"
| "step ClearFocus w = clearFocus w"
| "step (MoveFocus b) w = moveFocus b w"
| "step (PointerDown c) w = onPointerDown c w"

definition run :: "call list \<Rightarrow> world \<Rightarrow> world" where
  "run cs w = fold step cs w"

text \<open>A freshly constructed manager over a given store of widgets.\<close>

definition new_manager :: "(nat \<Rightarrow> widget) \<Rightarrow> world" where
  "new_manager h = \<lparr>heap = h, currentTabIndex = - 1, components = [], emitted = []\<rparr>"

text \<open>A freshly constructed \<open>UIButton\<close> with the given tab-stop index.\<close>

definition new_button :: "int \<Rightarrow> widget" where
  "new_button t =
     \<lparr>cls = Button, tabStopIndex = t, enabled = True, isFocused = False, manager = False,
      state = Idle, isHovered = False, isPressed = False, ignoreLeave = False\<rparr>"


text \<open>
  The registry reads as a \<open>Map\<close> keyed by each widget's own tab-stop index when every entry
  is stored under the index of its widget; \<open>register\<close> stores it so.
\<close>

definition components_consistent :: "world \<Rightarrow> bool" where
  "components_consistent w =
     list_all (\<lambda>(k, c). tabStopIndex (heap w c) = k) (components w)"



text \<open>The events a sequence of calls has emitted: the part of the log added since \<open>w\<close>.\<close>

definition emitted_since :: "world \<Rightarrow> world \<Rightarrow> (nat \<times> ui_event) list" where
  "emitted_since w w' = drop (length (emitted w)) (emitted w')"

definition registered :: "world \<Rightarrow> nat list" where
  "registered w = remdups (map snd (components w))"

text \<open>At most one registered widget reports \<open>focused = true\<close>.\<close>

definition focus_exclusive :: "world \<Rightarrow> bool" where
  "focus_exclusive w = (length (filter (\<lambda>c. isFocused (heap w c)) (registered w)) \<le> 1)"

text \<open>\<open>currentTabIndex\<close> is \<open>- 1\<close> or a key of the registry.\<close>

definition current_registered :: "world \<Rightarrow> bool" where
  "current_registered w =
     (currentTabIndex w = - 1 \<or> currentTabIndex w \<in> set (map fst (components w)))"

text \<open>
  The condition under which a call respects the registry: \<open>setFocus\<close>, called directly or by
  a widget's pointer-down handler through its back-reference, is given a widget that is
  registered at that moment.
\<close>

definition is_registered :: "nat \<Rightarrow> world \<Rightarrow> bool" where
  "is_registered c w = (map_of (components w) (tabStopIndex (heap w c)) = Some c)"

fun call_registered :: "call \<Rightarrow> world \<Rightarrow> bool" where
  "call_registered (SetFocus c) w = is_registered c w"
| "call_registered (PointerDown c) w =
     (cls (heap w c) \<noteq> Component \<and> enabled (heap w c) \<and> manager (heap w c)
        \<longrightarrow> is_registered c w)"
| "call_registered _ w = True"

fun calls_registered :: "call list \<Rightarrow> world \<Rightarrow> bool" where
  "calls_registered [] w = True"
| "calls_registered (a # as) w = (call_registered a w \<and> calls_registered as (step a w))"

text \<open>
  The condition under which a call respects the ownership of the focus: a widget's own
  \<open>focus\<close> only runs for a widget that is registered at that moment. \<open>setFocus\<close> runs it;
  so does the pointer-down handler of an enabled widget, through the manager when the
  widget holds the back-reference, and directly when the widget is a text input or a
  numeric input.
\<close>

definition focuses_itself :: "widget \<Rightarrow> bool" where
  "focuses_itself x = (cls x = TextInput \<or> cls x = Numeric)"

fun call_exclusive :: "call \<Rightarrow> world \<Rightarrow> bool" where
  "call_exclusive (SetFocus c) w = is_registered c w"
| "call_exclusive (PointerDown c) w =
     (enabled (heap w c)
        \<and> (focuses_itself (heap w c) \<or> cls (heap w c) \<noteq> Component \<and> manager (heap w c))
        \<longrightarrow> is_registered c w)"
| "call_exclusive _ w = True"

fun calls_exclusive :: "call list \<Rightarrow> world \<Rightarrow> bool" where
  "calls_exclusive [] w = True"
| "calls_exclusive (a # as) w = (call_exclusive a w \<and> calls_exclusive as (step a w))"


section \<open>UIRadioGroup over UICheckbox members\<close>

text \<open>
  A checkbox is its \<open>_checked\<close> flag; the group holds references to its members.
  \<open>listeners c\<close> counts the handlers that \<open>add\<close> has attached to the emitter of checkbox
  \<open>c\<close> (\<open>remove\<close> detaches none). Emitting is synchronous: the setter \<open>checked\<close> of a
  checkbox emits \<open>UICheckboxChanged\<close> when the value changes, which runs
  \<open>handleCheckboxChanged\<close> once per attached handler, which may write \<open>checked\<close> again.
  The functions therefore call each other; every call spends one unit of the first
  argument, and \<open>None\<close> means the budget was too small.
\<close>

record radio =
  checked :: "nat \<Rightarrow> bool"
  listeners :: "nat \<Rightarrow> nat"
  checkboxes :: "nat list"
  allowDeselect :: bool
  selectedIndex :: int
  changed :: "(int \<times> int) list"

text \<open>
  \<open>changed\<close> logs the group's \<open>UIRadioGroupChanged\<close> events as (selectedIndex,
  previousIndex).
\<close>

definition in_range :: "int \<Rightarrow> 'a list \<Rightarrow> bool" where
  "in_range i xs = (0 \<le> i \<and> i < int (length xs))"

fun set_checked :: "nat \<Rightarrow> nat \<Rightarrow> bool \<Rightarrow> radio \<Rightarrow> radio option"
  and dispatch :: "nat \<Rightarrow> nat \<Rightarrow> nat \<Rightarrow> bool \<Rightarrow> radio \<Rightarrow> radio option"
  and handleCheckboxChanged :: "nat \<Rightarrow> nat \<Rightarrow> bool \<Rightarrow> radio \<Rightarrow> radio option"
  and select :: "nat \<Rightarrow> int \<Rightarrow> radio \<Rightarrow> radio option"
  and deselect :: "nat \<Rightarrow> radio \<Rightarrow> radio option"
where
  "set_checked 0 c v g = None"
| "set_checked (Suc n) c v g =
     (if v \<noteq> checked g c
      then dispatch n (listeners g c) c v (g\<lparr>checked := (checked g)(c := v)\<rparr>)
      else Some g)"
| "dispatch 0 k c v g = None"
| "dispatch (Suc n) 0 c v g = Some g"
| "dispatch (Suc n) (Suc k) c v g =
     (case handleCheckboxChanged n c v g of
        None \<Rightarrow> None
      | Some g1 \<Rightarrow> dispatch n k c v g1)"
| "handleCheckboxChanged 0 c v g = None"
| "handleCheckboxChanged (Suc n) c v g =
     (let index = indexOf (checkboxes g) c in
      if index = - 1 then Some g
      else if v then select n index g
      else if allowDeselect g \<and> index = selectedIndex g then deselect n g
      else set_checked n c True g)"
| "select 0 index g = None"
| "select (Suc n) index g =
     (if index < 0 \<or> index \<ge> int (length (checkboxes g)) then Some g
      else if selectedIndex g = index then Some g
      else
        let previousIndex = selectedIndex g in
        case (if in_range (selectedIndex g) (checkboxes g)
              then set_checked n (checkboxes g ! nat (selectedIndex g)) False g
              else Some g) of
          None \<Rightarrow> None
        | Some g1 \<Rightarrow>
            (let g2 = g1\<lparr>selectedIndex := index\<rparr> in
             case set_checked n (checkboxes g2 ! nat index) True g2 of
               None \<Rightarrow> None
             | Some g3 \<Rightarrow>
                 Some (g3\<lparr>changed := changed g3 @ [(selectedIndex g3, previousIndex)]\<rparr>)))"
| "deselect 0 g = None"
| "deselect (Suc n) g =
     (if \<not> allowDeselect g then Some g
      else if selectedIndex g = - 1 then Some g
      else
        let previousIndex = selectedIndex g in
        case (if in_range (selectedIndex g) (checkboxes g)
              then set_checked n (checkboxes g ! nat (selectedIndex g)) False g
              else Some g) of
          None \<Rightarrow> None
        | Some g1 \<Rightarrow>
            Some (g1\<lparr>selectedIndex := - 1, changed := changed g1 @ [(- 1, previousIndex)]\<rparr>))"

definition add :: "nat \<Rightarrow> nat \<Rightarrow> radio \<Rightarrow> radio option" where
  "add n c g =
     (if indexOf (checkboxes g) c \<noteq> - 1 then Some g
      else
        let g1 = g\<lparr>checkboxes := checkboxes g @ [c]\<rparr>;
            g2 = g1\<lparr>listeners := (listeners g1)(c := listeners g1 c + 1)\<rparr>;
            index = int (length (checkboxes g2)) - 1
        in if index = selectedIndex g2 then set_checked n c True g2
           else if checked g2 c then select n index g2
           else set_checked n c False g2)"

definition remove :: "nat \<Rightarrow> radio \<Rightarrow> radio" where
  "remove c g =
     (let index = indexOf (checkboxes g) c in
      if index = - 1 then g
      else
        let g1 = g\<lparr>checkboxes := take (nat index) (checkboxes g) @ drop (nat index + 1) (checkboxes g)\<rparr>
        in if selectedIndex g1 = index then g1\<lparr>selectedIndex := - 1\<rparr>
           else if selectedIndex g1 > index then g1\<lparr>selectedIndex := selectedIndex g1 - 1\<rparr>
           else g1)"

text \<open>
  A group as its constructor leaves it, over checkboxes with the given initial flags and no
  handler attached yet.
\<close>

definition new_radio :: "bool \<Rightarrow> int \<Rightarrow> (nat \<Rightarrow> bool) \<Rightarrow> radio" where
  "new_radio ad si ch =
     \<lparr>checked = ch, listeners = (\<lambda>_. 0), checkboxes = [], allowDeselect = ad,
      selectedIndex = si, changed = []\<rparr>"

text \<open>The members of the group whose value is \<open>true\<close>.\<close>

definition checked_members :: "radio \<Rightarrow> nat list" where
  "checked_members g = filter (checked g) (checkboxes g)"

section \<open>UITabbedPanel.setActiveTab\<close>

text \<open>
  The panel's two maps, keyed by tab id in insertion order: \<open>tabs\<close> holds each header's
  \<open>isTabActive\<close> flag, \<open>tabContents\<close> each content pane's \<open>graphics.isVisible\<close> flag.
  \<open>activeTabId\<close> is a string or \<open>null\<close>; the source tests it for truthiness, so the empty
  string counts as no active tab. The panel's emitter is the log \<open>tab_emitted\<close>.
\<close>

datatype tab_event = TabChanged string | TabAdded string | TabRemoved string

record tabbed_panel =
  tabs :: "(string \<times> bool) list"
  tabContents :: "(string \<times> bool) list"
  activeTabId :: "string option"
  tab_emitted :: "tab_event list"

definition set_if_present :: "string \<Rightarrow> bool \<Rightarrow> (string \<times> bool) list \<Rightarrow> (string \<times> bool) list" where
  "set_if_present k v al = (case map_of al k of None \<Rightarrow> al | Some _ \<Rightarrow> AList.update k v al)"

definition setActiveTab :: "string \<Rightarrow> tabbed_panel \<Rightarrow> bool \<times> tabbed_panel" where
  "setActiveTab tabId p =
     (if map_of (tabs p) tabId = None \<or> map_of (tabContents p) tabId = None then (False, p)
      else
        let p1 = (case activeTabId p of
                    None \<Rightarrow> p
                  | Some a \<Rightarrow>
                      if a = [] then p
                      else p\<lparr>tabs := set_if_present a False (tabs p),
                             tabContents := set_if_present a False (tabContents p)\<rparr>);
            p2 = p1\<lparr>activeTabId := Some tabId\<rparr>;
            p3 = p2\<lparr>tabs := AList.update tabId True (tabs p2)\<rparr>;
            p4 = p3\<lparr>tabContents := AList.update tabId True (tabContents p3)\<rparr>
        in (True, p4\<lparr>tab_emitted := tab_emitted p4 @ [TabChanged tabId]\<rparr>))"


section \<open>UINumeric\<close>

subsection \<open>Numbers\<close>

text \<open>
  A \<open>number\<close> of the source is \<open>NaN\<close>, an infinity or a finite value. Finite values are
  exact rationals: the functions below compare, select and add numbers, and rounding is
  not modelled. \<open>Math.min\<close> and \<open>Math.max\<close> return \<open>NaN\<close> when an argument is \<open>NaN\<close>;
  \<open>!==\<close> holds between \<open>NaN\<close> and every number, itself included.
\<close>

datatype jsnum = NaN | NegInf | Fin rat | PosInf

fun isNaN :: "jsnum \<Rightarrow> bool" where
  "isNaN NaN = True"
| "isNaN _ = False"

fun js_le :: "jsnum \<Rightarrow> jsnum \<Rightarrow> bool" where
  "js_le NaN _ = False"
| "js_le _ NaN = False"
| "js_le NegInf _ = True"
| "js_le _ PosInf = True"
| "js_le (Fin a) (Fin b) = (a \<le> b)"
| "js_le (Fin a) NegInf = False"
| "js_le PosInf _ = False"

definition Math_min :: "jsnum \<Rightarrow> jsnum \<Rightarrow> jsnum" where
  "Math_min a b = (if isNaN a \<or> isNaN b then NaN else if js_le a b then a else b)"

definition Math_max :: "jsnum \<Rightarrow> jsnum \<Rightarrow> jsnum" where
  "Math_max a b = (if isNaN a \<or> isNaN b then NaN else if js_le a b then b else a)"

definition strict_neq :: "jsnum \<Rightarrow> jsnum \<Rightarrow> bool" where
  "strict_neq a b = (isNaN a \<or> isNaN b \<or> a \<noteq> b)"

fun js_neg :: "jsnum \<Rightarrow> jsnum" where
  "js_neg NaN = NaN"
| "js_neg NegInf = PosInf"
| "js_neg PosInf = NegInf"
| "js_neg (Fin a) = Fin (- a)"



subsection \<open>The host's string and number functions\<close>

text \<open>
  The conversions between numbers and text that the widget takes from the language's
  library are parameters of the model: \<open>parseFloat\<close>, \<open>Number.toFixed\<close>,
  \<open>Number.toExponential\<close>, \<open>Number.toString\<close>, and the two regular-expression
  replacements of \<open>parseNumber\<close> (deleting every thousands separator) and \<open>formatNumber\<close>
  (inserting one between groups of three digits).
\<close>

record host =
  parseFloat :: "string \<Rightarrow> jsnum"
  toFixed :: "jsnum \<Rightarrow> nat \<Rightarrow> string"
  toExponential :: "jsnum \<Rightarrow> nat \<Rightarrow> string"
  toString :: "jsnum \<Rightarrow> string"
  stripSeparator :: "string \<Rightarrow> string \<Rightarrow> string"
  groupThousands :: "string \<Rightarrow> string \<Rightarrow> string"

text \<open>\<open>String.replace\<close> with a string pattern and the empty replacement: the first
  occurrence goes.\<close>

fun replace_first :: "string \<Rightarrow> string \<Rightarrow> string" where
  "replace_first pat [] = []"
| "replace_first pat (x # xs) =
     (if take (length pat) (x # xs) = pat then drop (length pat) (x # xs)
      else x # replace_first pat xs)"

definition is_space :: "char \<Rightarrow> bool" where
  "is_space ch = (ch \<in> set [CHR '' '', CHR 0x09, CHR 0x0A, CHR 0x0B, CHR 0x0C, CHR 0x0D])"

definition trim :: "string \<Rightarrow> string" where
  "trim s = rev (dropWhile is_space (rev (dropWhile is_space s)))"

subsection \<open>The widget\<close>

datatype UINumericState = Normal | Focused | NumDisabled

datatype numeric_event =
    UINumericValueChanged jsnum | UINumericSubmit jsnum | UINumericIncrement jsnum
  | UINumericDecrement jsnum | UINumericFocused | UINumericUnfocused
  | UINumericEnabled | UINumericDisabled

text \<open>
  The configuration fields the functions read are part of the widget; an optional field of
  the configuration that may be \<open>undefined\<close> is an \<open>option\<close>, and the source's default
  (\<open>??\<close>) is applied where it is read.
\<close>

record numeric =
  num_enabled :: bool
  num_isFocused :: bool
  num_state :: UINumericState
  num_value :: jsnum
  inputText :: string
  cursorPosition :: int
  cursorVisible :: bool
  cursorBlinkTimer :: rat
  isEditing :: bool
  cfg_min :: "jsnum option"
  cfg_max :: "jsnum option"
  cfg_step :: "jsnum option"
  cfg_placeholder :: "string option"
  allowNegative :: bool
  allowDecimal :: bool
  fmt_decimals :: "nat option"
  fmt_thousandsSeparator :: "string option"
  fmt_decimalSeparator :: "string option"
  fmt_prefix :: "string option"
  fmt_suffix :: "string option"
  fmt_useExponential :: bool
  fmt_exponentialThreshold :: "jsnum option"
  num_emitted :: "numeric_event list"

text \<open>A string option is truthy when it is a non-empty string.\<close>

definition truthy :: "string option \<Rightarrow> bool" where
  "truthy s = (case s of None \<Rightarrow> False | Some t \<Rightarrow> t \<noteq> [])"

definition num_emit :: "numeric_event \<Rightarrow> numeric \<Rightarrow> numeric" where
  "num_emit e n = n\<lparr>num_emitted := num_emitted n @ [e]\<rparr>"

definition parseNumber :: "host \<Rightarrow> numeric \<Rightarrow> string \<Rightarrow> jsnum" where
  "parseNumber h n text =
     (let c1 = (if truthy (fmt_prefix n) then replace_first (the (fmt_prefix n)) text else text);
          c2 = (if truthy (fmt_suffix n) then replace_first (the (fmt_suffix n)) c1 else c1);
          c3 = (if truthy (fmt_thousandsSeparator n)
                then stripSeparator h (the (fmt_thousandsSeparator n)) c2 else c2)
      in parseFloat h (trim c3))"

definition js_abs_ge :: "jsnum \<Rightarrow> jsnum \<Rightarrow> bool" where
  "js_abs_ge v t = (js_le t v \<or> js_le t (js_neg v))"

definition formatNumber :: "host \<Rightarrow> numeric \<Rightarrow> jsnum \<Rightarrow> string" where
  "formatNumber h n v =
     (if isNaN v then (case cfg_placeholder n of None \<Rightarrow> ''0'' | Some p \<Rightarrow> p)
      else if fmt_useExponential n
              \<and> (case fmt_exponentialThreshold n of
                    None \<Rightarrow> False
                  | Some t \<Rightarrow> \<not> isNaN t \<and> t \<noteq> Fin 0 \<and> js_abs_ge v t)
      then toExponential h v (case fmt_decimals n of None \<Rightarrow> 2 | Some d \<Rightarrow> d)
      else
        let formatted = toFixed h v (case fmt_decimals n of None \<Rightarrow> 2 | Some d \<Rightarrow> d);
            intPart0 = takeWhile (\<lambda>ch. ch \<noteq> CHR ''.'') formatted;
            decPart = takeWhile (\<lambda>ch. ch \<noteq> CHR ''.'')
                        (drop 1 (dropWhile (\<lambda>ch. ch \<noteq> CHR ''.'') formatted));
            intPart = (if truthy (fmt_thousandsSeparator n)
                       then groupThousands h (the (fmt_thousandsSeparator n)) intPart0
                       else intPart0);
            decSep = (case fmt_decimalSeparator n of None \<Rightarrow> ''.'' | Some d \<Rightarrow> d);
            f1 = (if decPart \<noteq> [] then intPart @ decSep @ decPart else intPart);
            f2 = (if truthy (fmt_prefix n) then the (fmt_prefix n) @ f1 else f1)
        in (if truthy (fmt_suffix n) then f2 @ the (fmt_suffix n) else f2))"

definition clampValue :: "numeric \<Rightarrow> jsnum \<Rightarrow> jsnum" where
  "clampValue n v =
     (let min = (case cfg_min n of None \<Rightarrow> NegInf | Some m \<Rightarrow> m);
          max = (case cfg_max n of None \<Rightarrow> PosInf | Some m \<Rightarrow> m)
      in Math_max min (Math_min max v))"

definition emitValueChanged :: "numeric \<Rightarrow> numeric" where
  "emitValueChanged n = num_emit (UINumericValueChanged (num_value n)) n"

definition setValue :: "host \<Rightarrow> jsnum \<Rightarrow> numeric \<Rightarrow> numeric" where
  "setValue h v n =
     (let clamped = clampValue n v in
      if strict_neq (num_value n) clamped then
        (let n1 = n\<lparr>num_value := clamped\<rparr>;
             n2 = n1\<lparr>inputText := formatNumber h n1 (num_value n1)\<rparr>;
             n3 = n2\<lparr>cursorPosition := min (cursorPosition n2) (int (length (inputText n2)))\<rparr>;
             n4 = n3\<lparr>isEditing := False\<rparr>
         in emitValueChanged n4)
      else n)"





definition commitValue :: "host \<Rightarrow> numeric \<Rightarrow> numeric" where
  "commitValue h n =
     (let parsed = parseNumber h n (inputText n);
          n1 = (if \<not> isNaN parsed then setValue h parsed n
                else n\<lparr>inputText := formatNumber h n (num_value n)\<rparr>);
          n2 = n1\<lparr>cursorPosition := int (length (inputText n1))\<rparr>
      in n2\<lparr>isEditing := False\<rparr>)"




definition num_loseFocus :: "host \<Rightarrow> numeric \<Rightarrow> numeric" where
  "num_loseFocus h n =
     (if \<not> num_enabled n then n
      else if \<not> num_isFocused n then n
      else
        let n1 = (if isEditing n then commitValue h n else n);
            n2 = n1\<lparr>num_isFocused := False, num_state := Normal, isEditing := False\<rparr>;
            n3 = n2\<lparr>inputText := formatNumber h n2 (num_value n2)\<rparr>
        in num_emit UINumericUnfocused n3)"








text \<open>
  A host for the examples: \<open>parseFloat\<close> reads a string of decimal digits and yields
  \<open>NaN\<close> for any other string, the number-to-text functions print a fixed text, and the
  separator functions leave the text as it is.
\<close>

fun digits_value :: "nat \<Rightarrow> string \<Rightarrow> nat option" where
  "digits_value acc [] = Some acc"
| "digits_value acc (ch # cs) =
     (if ch \<in> set ''0123456789''
      then digits_value (10 * acc + (of_char ch - 48)) cs else None)"

definition example_host :: host where
  "example_host =
     \<lparr>parseFloat = (\<lambda>s. if s = [] then NaN
                         else case digits_value 0 s of None \<Rightarrow> NaN | Some k \<Rightarrow> Fin (of_nat k)),
      toFixed = (\<lambda>v d. ''#''), toExponential = (\<lambda>v d. ''#''), toString = (\<lambda>v. ''#''),
      stripSeparator = (\<lambda>sep s. s), groupThousands = (\<lambda>sep s. s)\<rparr>"

text \<open>
  A focused, enabled numeric input with committed value 42, editing buffer \<open>4299\<close> and the
  default format options, between the given bounds.
\<close>

definition editing_4299 :: "jsnum option \<Rightarrow> jsnum option \<Rightarrow> numeric" where
  "editing_4299 lo hi =
     \<lparr>num_enabled = True, num_isFocused = True, num_state = Focused, num_value = Fin 42,
      inputText = ''4299'', cursorPosition = 4, cursorVisible = True, cursorBlinkTimer = 0,
      isEditing = True, cfg_min = lo, cfg_max = hi, cfg_step = Some (Fin 1),
      cfg_placeholder = Some ''0'', allowNegative = True, allowDecimal = True,
      fmt_decimals = Some 2, fmt_thousandsSeparator = Some '','',
      fmt_decimalSeparator = Some ''.'', fmt_prefix = Some [], fmt_suffix = Some [],
      fmt_useExponential = False, fmt_exponentialThreshold = None, num_emitted = []\<rparr>"


section \<open>Invariants, call sequences and example states\<close>

text \<open>
  Three fresh buttons with tab-stops 0, 2 and 5 (every other reference is a fresh button
  with the default tab-stop \<open>- 1\<close>), registered with a new manager.
\<close>

definition heap_025 :: "nat \<Rightarrow> widget" where
  "heap_025 = (\<lambda>_. new_button (- 1))(0 := new_button 0, 1 := new_button 2, 2 := new_button 5)"



text \<open>
  A fresh widget of a given class with a given tab-stop index, and a store with one widget
  of each class: a button (0), a switch (1), a slider (2), a text input (3), a numeric
  input (4) and a checkbox (5), with the tab-stops 0 to 5.
\<close>

definition new_widget :: "widget_class \<Rightarrow> int \<Rightarrow> widget" where
  "new_widget k t =
     \<lparr>cls = k, tabStopIndex = t, enabled = True, isFocused = False, manager = False,
      state = Idle, isHovered = False, isPressed = False, ignoreLeave = False\<rparr>"

definition heap_mixed :: "nat \<Rightarrow> widget" where
  "heap_mixed =
     (\<lambda>_. new_button (- 1))
       (0 := new_button 0, 1 := new_widget Switch 1, 2 := new_widget Slider 2,
        3 := new_widget TextInput 3, 4 := new_widget Numeric 4, 5 := new_widget Checkbox 5)"


text \<open>
  Three fresh buttons of which the first two share the tab-stop index 0.
\<close>

definition heap_dup :: "nat \<Rightarrow> widget" where
  "heap_dup = (\<lambda>_. new_button (- 1))(0 := new_button 0, 1 := new_button 0, 2 := new_button 1)"

text \<open>The widgets a sequence of calls names.\<close>

fun widgets_of :: "call \<Rightarrow> nat list" where
  "widgets_of (Register cs) = cs"
| "widgets_of (Unregister cs) = cs"
| "widgets_of (SetFocus c) = [c]"
| "widgets_of (PointerDown c) = [c]"
| "widgets_of _ = []"

definition calls_widgets :: "call list \<Rightarrow> nat list" where
  "calls_widgets cs = concat (map widgets_of cs)"

text \<open>
  The manager owns the focus when a widget whose focus flag is set is the manager's
  \<open>focused\<close> widget and is one that takes and gives up the focus.
\<close>

definition focus_owned :: "world \<Rightarrow> bool" where
  "focus_owned w =
     (\<forall>x. isFocused (heap w x) \<longrightarrow> takes_focus (heap w x) \<and> focused w = Some x)"

text \<open>
  The invariant behind focus exclusion, relative to a set \<open>S\<close> of widgets with pairwise
  distinct tab-stop indices: the registry holds widgets of \<open>S\<close> under their own indices,
  every registered widget holds the back-reference, and the manager owns the focus.
\<close>

definition focus_inv :: "nat set \<Rightarrow> world \<Rightarrow> bool" where
  "focus_inv S w =
     (components_consistent w \<and> snd ` set (components w) \<subseteq> S
      \<and> inj_on (\<lambda>c. tabStopIndex (heap w c)) S
      \<and> list_all (\<lambda>(k, c). manager (heap w c)) (components w)
      \<and> focus_owned w)"


text \<open>Events that only report a change of focus.\<close>

definition focus_events :: "(nat \<times> ui_event) list \<Rightarrow> bool" where
  "focus_events es =
     list_all (\<lambda>e. snd e = UIButtonFocused \<or> snd e = UIButtonUnfocused
                 \<or> snd e = UIFocused \<or> snd e = UIUnfocused) es"

text \<open>A fresh button right after a click (hover, pointer-down, pointer-up), and a fresh
  button that is hovered and pressed.\<close>

definition world_clicked :: world where
  "world_clicked = onClick 0 (onPointerDown 0 (onHover 0 (new_manager heap_025)))"

definition world_pressed :: world where
  "world_pressed = onPointerDown 0 (onHover 0 (new_manager heap_025))"

text \<open>Sequences of calls on a radio group; every call gets the same budget.\<close>

datatype radio_call = Add nat | Remove nat | SetChecked nat bool | Select int | Deselect

fun radio_step :: "nat \<Rightarrow> radio_call \<Rightarrow> radio \<Rightarrow> radio option" where
  "radio_step n (Add c) g = add n c g"
| "radio_step n (Remove c) g = Some (remove c g)"
| "radio_step n (SetChecked c v) g = set_checked n c v g"
| "radio_step n (Select i) g = select n i g"
| "radio_step n Deselect g = deselect n g"

fun radio_run :: "nat \<Rightarrow> radio_call list \<Rightarrow> radio \<Rightarrow> radio option" where
  "radio_run n [] g = Some g"
| "radio_run n (a # as) g =
     (case radio_step n a g of None \<Rightarrow> None | Some g1 \<Rightarrow> radio_run n as g1)"

text \<open>A panel with the tabs \<open>a\<close> and \<open>b\<close>, the first one active, as two \<open>addTab\<close> calls
  leave it.\<close>

definition panel_ab :: tabbed_panel where
  "panel_ab =
     \<lparr>tabs = [(''a'', True), (''b'', False)], tabContents = [(''a'', True), (''b'', False)],
      activeTabId = Some ''a'', tab_emitted = [TabAdded ''a'', TabChanged ''a'', TabAdded ''b'']\<rparr>"

section \<open>Properties of the focus manager\<close>

subsection \<open>Frame lemmas\<close>

lemma updateState_fields [simp]:
  "cls (updateState x) = cls x"
  "tabStopIndex (updateState x) = tabStopIndex x"
  "enabled (updateState x) = enabled x"
  "isFocused (updateState x) = isFocused x"
  "manager (updateState x) = manager x"
  "isHovered (updateState x) = isHovered x"
  "isPressed (updateState x) = isPressed x"
  "ignoreLeave (updateState x) = ignoreLeave x"
  by (simp_all add: updateState_def)

lemma upd_fields [simp]:
  "heap (upd c f w) = (heap w)(c := f (heap w c))"
  "currentTabIndex (upd c f w) = currentTabIndex w"
  "components (upd c f w) = components w"
  "emitted (upd c f w) = emitted w"
  by (simp_all add: upd_def)

lemma emit_fields [simp]:
  "heap (emit c e w) = heap w"
  "currentTabIndex (emit c e w) = currentTabIndex w"
  "components (emit c e w) = components w"
  "emitted (emit c e w) = emitted w @ [(c, e)]"
  by (simp_all add: emit_def)

lemma focus_frame [simp]:
  "components (focus c w) = components w"
  "currentTabIndex (focus c w) = currentTabIndex w"
  "tabStopIndex (heap (focus c w) x) = tabStopIndex (heap w x)"
  "enabled (heap (focus c w) x) = enabled (heap w x)"
  "cls (heap (focus c w) x) = cls (heap w x)"
  "manager (heap (focus c w) x) = manager (heap w x)"
  by (simp_all add: focus_def Let_def split: widget_class.split)

lemma loseFocus_frame [simp]:
  "components (loseFocus c w) = components w"
  "currentTabIndex (loseFocus c w) = currentTabIndex w"
  "tabStopIndex (heap (loseFocus c w) x) = tabStopIndex (heap w x)"
  "enabled (heap (loseFocus c w) x) = enabled (heap w x)"
  "cls (heap (loseFocus c w) x) = cls (heap w x)"
  "manager (heap (loseFocus c w) x) = manager (heap w x)"
  by (simp_all add: loseFocus_def Let_def split: widget_class.split)

lemma isFocused_focus [simp]:
  "isFocused (heap (focus c w) x) =
     (if x = c \<and> takes_focus (heap w c) then True else isFocused (heap w x))"
  by (cases "cls (heap w c)") (simp_all add: focus_def takes_focus_def Let_def)

lemma isFocused_loseFocus [simp]:
  "isFocused (heap (loseFocus c w) x) =
     (if x = c \<and> takes_focus (heap w c) then False else isFocused (heap w x))"
  by (cases "cls (heap w c)") (simp_all add: loseFocus_def takes_focus_def Let_def)

lemma focus_button_flags [simp]:
  "isHovered (heap (focus c w) x) = isHovered (heap w x)"
  "isPressed (heap (focus c w) x) = isPressed (heap w x)"
  "ignoreLeave (heap (focus c w) x) = ignoreLeave (heap w x)"
  "isHovered (heap (loseFocus c w) x) = isHovered (heap w x)"
  "isPressed (heap (loseFocus c w) x) = isPressed (heap w x)"
  "ignoreLeave (heap (loseFocus c w) x) = ignoreLeave (heap w x)"
  by (cases "cls (heap w c)"; simp add: focus_def loseFocus_def Let_def)+

lemma setFocus_button_flags [simp]:
  "isHovered (heap (setFocus c w) x) = isHovered (heap w x)"
  "isPressed (heap (setFocus c w) x) = isPressed (heap w x)"
  "ignoreLeave (heap (setFocus c w) x) = ignoreLeave (heap w x)"
  by (simp_all add: setFocus_def Let_def split: option.split)

lemma setFocus_frame [simp]:
  "components (setFocus c w) = components w"
  "tabStopIndex (heap (setFocus c w) x) = tabStopIndex (heap w x)"
  "enabled (heap (setFocus c w) x) = enabled (heap w x)"
  "cls (heap (setFocus c w) x) = cls (heap w x)"
  "manager (heap (setFocus c w) x) = manager (heap w x)"
  by (simp_all add: setFocus_def Let_def split: option.split)

lemma currentTabIndex_setFocus:
  "currentTabIndex (setFocus c w) =
     (if focused w = Some c then currentTabIndex w else tabStopIndex (heap w c))"
  by (simp add: setFocus_def Let_def split: option.split)

lemma clearFocus_frame [simp]:
  "components (clearFocus w) = components w"
  "currentTabIndex (clearFocus w) = - 1"
  "tabStopIndex (heap (clearFocus w) x) = tabStopIndex (heap w x)"
  "enabled (heap (clearFocus w) x) = enabled (heap w x)"
  "cls (heap (clearFocus w) x) = cls (heap w x)"
  "manager (heap (clearFocus w) x) = manager (heap w x)"
  by (simp_all add: clearFocus_def split: option.split)

lemma moveFocus_frame [simp]:
  "components (moveFocus b w) = components w"
  "tabStopIndex (heap (moveFocus b w) x) = tabStopIndex (heap w x)"
  "enabled (heap (moveFocus b w) x) = enabled (heap w x)"
  "cls (heap (moveFocus b w) x) = cls (heap w x)"
  "manager (heap (moveFocus b w) x) = manager (heap w x)"
  by (simp_all add: moveFocus_def split: option.split)

lemma consistent_lookup:
  "components_consistent w \<Longrightarrow> map_of (components w) k = Some c
     \<Longrightarrow> tabStopIndex (heap w c) = k"
  by (auto simp: components_consistent_def list_all_iff dest: map_of_SomeD)

lemma consistent_moveFocus [simp]:
  "components_consistent (moveFocus b w) = components_consistent w"
  by (simp add: components_consistent_def)

subsection \<open>The next index of moveFocus\<close>













subsection \<open>Invariants of the registry\<close>

lemma update_set_cases:
  "p \<in> set (AList.update k v al) \<Longrightarrow> p = (k, v) \<or> p \<in> set al"
  by (induction al) (auto split: if_splits)

lemma delete_set_subset: "p \<in> set (AList.delete k al) \<Longrightarrow> p \<in> set al"
  by (simp add: AList.delete_eq)

lemma register_one_frame [simp]:
  "components (register_one c w) = AList.update (tabStopIndex (heap w c)) c (components w)"
  "currentTabIndex (register_one c w) = currentTabIndex w"
  "tabStopIndex (heap (register_one c w) x) = tabStopIndex (heap w x)"
  "enabled (heap (register_one c w) x) = enabled (heap w x)"
  "isFocused (heap (register_one c w) x) = isFocused (heap w x)"
  "cls (heap (register_one c w) x) = cls (heap w x)"
  by (simp_all add: register_one_def setManager_def)

lemma unregister_one_frame [simp]:
  "tabStopIndex (heap (unregister_one c w) x) = tabStopIndex (heap w x)"
  "enabled (heap (unregister_one c w) x) = enabled (heap w x)"
  "cls (heap (unregister_one c w) x) = cls (heap w x)"
  "components (unregister_one c w) = AList.delete (tabStopIndex (heap w c)) (components w)"
  "currentTabIndex (unregister_one c w) =
     (if currentTabIndex w = tabStopIndex (heap w c) then - 1 else currentTabIndex w)"
  by (simp_all add: unregister_one_def Let_def)

lemma press_frame [simp]:
  "components (press c w) = components w"
  "currentTabIndex (press c w) = currentTabIndex w"
  "tabStopIndex (heap (press c w) x) = tabStopIndex (heap w x)"
  "enabled (heap (press c w) x) = enabled (heap w x)"
  "cls (heap (press c w) x) = cls (heap w x)"
  "manager (heap (press c w) x) = manager (heap w x)"
  "isFocused (heap (press c w) x) = isFocused (heap w x)"
  "isHovered (heap (press c w) x) = isHovered (heap w x)"
  "ignoreLeave (heap (press c w) x) = ignoreLeave (heap w x)"
  "isPressed (heap (press c w) x) = (x = c \<or> isPressed (heap w x))"
  "emitted (press c w) = emitted w @ [(c, UIButtonDown)]"
  by (simp_all add: press_def)

lemma focused_press [simp]: "focused (press c w) = focused w"
  by (simp add: focused_def)

lemma beforeSetFocus_Button: "cls (heap w c) = Button \<Longrightarrow> beforeSetFocus c w = press c w"
  by (simp add: beforeSetFocus_def)

lemma beforeSetFocus_frame [simp]:
  "components (beforeSetFocus c w) = components w"
  "currentTabIndex (beforeSetFocus c w) = currentTabIndex w"
  "tabStopIndex (heap (beforeSetFocus c w) x) = tabStopIndex (heap w x)"
  "enabled (heap (beforeSetFocus c w) x) = enabled (heap w x)"
  "cls (heap (beforeSetFocus c w) x) = cls (heap w x)"
  "manager (heap (beforeSetFocus c w) x) = manager (heap w x)"
  by (cases "cls (heap w c)"; simp add: beforeSetFocus_def)+

lemma focused_beforeSetFocus [simp]: "focused (beforeSetFocus c w) = focused w"
  by (simp add: focused_def)

lemma isFocused_beforeSetFocus:
  "isFocused (heap (beforeSetFocus c w) x) =
     (if x = c \<and> focuses_itself (heap w c) \<and> enabled (heap w c) then True
      else isFocused (heap w x))"
  by (cases "cls (heap w c)") (simp_all add: beforeSetFocus_def focuses_itself_def takes_focus_def)

lemma onPointerDown_frame [simp]:
  "components (onPointerDown c w) = components w"
  "tabStopIndex (heap (onPointerDown c w) x) = tabStopIndex (heap w x)"
  "enabled (heap (onPointerDown c w) x) = enabled (heap w x)"
  "cls (heap (onPointerDown c w) x) = cls (heap w x)"
  "manager (heap (onPointerDown c w) x) = manager (heap w x)"
  by (simp_all add: onPointerDown_def Let_def)

lemma consistent_cong:
  "components w' = components w \<Longrightarrow> (\<And>x. tabStopIndex (heap w' x) = tabStopIndex (heap w x))
     \<Longrightarrow> components_consistent w' = components_consistent w"
  by (simp add: components_consistent_def)

lemma consistent_register_one:
  "components_consistent w \<Longrightarrow> components_consistent (register_one c w)"
  by (auto simp: components_consistent_def list_all_iff dest!: update_set_cases)

lemma consistent_unregister_one:
  "components_consistent w \<Longrightarrow> components_consistent (unregister_one c w)"
  by (auto simp: components_consistent_def list_all_iff dest!: delete_set_subset)

lemma consistent_setFocus [simp]:
  "components_consistent (setFocus c w) = components_consistent w"
  by (simp add: components_consistent_def)

lemma consistent_clearFocus [simp]:
  "components_consistent (clearFocus w) = components_consistent w"
  by (simp add: components_consistent_def)

lemma consistent_onPointerDown [simp]:
  "components_consistent (onPointerDown c w) = components_consistent w"
  by (simp add: components_consistent_def)

lemma consistent_register:
  "components_consistent w \<Longrightarrow> components_consistent (register cs w)"
  unfolding register_def by (induction cs arbitrary: w) (simp_all add: consistent_register_one)

lemma consistent_unregister:
  "components_consistent w \<Longrightarrow> components_consistent (unregister cs w)"
  unfolding unregister_def by (induction cs arbitrary: w) (simp_all add: consistent_unregister_one)

lemma consistent_step:
  "components_consistent w \<Longrightarrow> components_consistent (step a w)"
  by (cases a) (simp_all add: consistent_register consistent_unregister)

subsection \<open>The current index stays registered\<close>

lemma is_registered_key:
  "is_registered c w \<Longrightarrow> tabStopIndex (heap w c) \<in> fst ` set (components w)"
  by (auto simp: is_registered_def dest!: map_of_SomeD intro: rev_image_eqI)

lemma current_registered_setFocus:
  "current_registered w \<Longrightarrow> is_registered c w \<Longrightarrow> current_registered (setFocus c w)"
  by (auto simp: current_registered_def currentTabIndex_setFocus dest: is_registered_key)

lemma current_registered_clearFocus [simp]: "current_registered (clearFocus w)"
  by (simp add: current_registered_def)

lemma current_registered_register_one:
  "current_registered w \<Longrightarrow> current_registered (register_one c w)"
  by (auto simp: current_registered_def AList.dom_update)

lemma current_registered_unregister_one:
  "current_registered w \<Longrightarrow> current_registered (unregister_one c w)"
  by (auto simp: current_registered_def AList.delete_keys simp flip: set_map)

lemma current_registered_register:
  "current_registered w \<Longrightarrow> current_registered (register cs w)"
  unfolding register_def
  by (induction cs arbitrary: w) (simp_all add: current_registered_register_one)

lemma current_registered_unregister:
  "current_registered w \<Longrightarrow> current_registered (unregister cs w)"
  unfolding unregister_def
  by (induction cs arbitrary: w) (simp_all add: current_registered_unregister_one)

lemma moveFocus_cases:
  "components_consistent w \<Longrightarrow>
     moveFocus b w = w \<or> (\<exists>c. is_registered c w \<and> moveFocus b w = setFocus c w)"
  by (auto simp: moveFocus_def is_registered_def split: option.split dest: consistent_lookup)

lemma current_registered_moveFocus:
  "components_consistent w \<Longrightarrow> current_registered w \<Longrightarrow> current_registered (moveFocus b w)"
  using moveFocus_cases [of w b] by (auto simp: current_registered_setFocus)


lemma current_registered_cong:
  "components w' = components w \<Longrightarrow> currentTabIndex w' = currentTabIndex w
     \<Longrightarrow> current_registered w' = current_registered w"
  by (simp add: current_registered_def)

lemma is_registered_cong:
  "components w' = components w \<Longrightarrow> tabStopIndex (heap w' c) = tabStopIndex (heap w c)
     \<Longrightarrow> is_registered c w' = is_registered c w"
  by (simp add: is_registered_def)

lemma current_registered_beforeSetFocus [simp]:
  "current_registered (beforeSetFocus c w) = current_registered w"
  by (simp add: current_registered_def)

lemma is_registered_beforeSetFocus [simp]:
  "is_registered c (beforeSetFocus d w) = is_registered c w"
  by (simp add: is_registered_def)

lemma current_registered_onPointerDown:
  assumes "current_registered w" "call_registered (PointerDown c) w"
  shows "current_registered (onPointerDown c w)"
  using assms by (simp add: onPointerDown_def Let_def current_registered_setFocus)

lemma current_registered_step:
  "components_consistent w \<Longrightarrow> current_registered w \<Longrightarrow> call_registered a w
     \<Longrightarrow> current_registered (step a w)"
  by (cases a)
    (simp_all add: current_registered_register current_registered_unregister
       current_registered_setFocus current_registered_moveFocus
       current_registered_onPointerDown)

lemma run_Cons [simp]: "run (a # as) w = run as (step a w)"
  by (simp add: run_def)

lemma run_Nil [simp]: "run [] w = w"
  by (simp add: run_def)

lemma current_registered_run:
  "components_consistent w \<Longrightarrow> current_registered w \<Longrightarrow> calls_registered cs w
     \<Longrightarrow> current_registered (run cs w)"
  by (induction cs arbitrary: w) (simp_all add: consistent_step current_registered_step)

lemma calls_registered_take:
  "calls_registered cs w \<Longrightarrow> calls_registered (take n cs) w"
proof (induction cs arbitrary: w n)
  case Nil
  then show ?case by simp
next
  case (Cons a as)
  then show ?case by (cases n) simp_all
qed

lemma new_manager_inv [simp]:
  "components_consistent (new_manager h)" "current_registered (new_manager h)"
  by (simp_all add: new_manager_def components_consistent_def current_registered_def)

lemma heap_025_simps [simp]:
  "heap_025 0 = new_button 0" "heap_025 (Suc 0) = new_button 2" "heap_025 2 = new_button 5"
  by (simp_all add: heap_025_def)

lemma new_manager_fields [simp]:
  "heap (new_manager h) = h" "currentTabIndex (new_manager h) = - 1"
  "components (new_manager h) = []" "emitted (new_manager h) = []"
  by (simp_all add: new_manager_def)

lemma new_button_fields [simp]:
  "cls (new_button t) = Button" "tabStopIndex (new_button t) = t" "enabled (new_button t)"
  "\<not> isFocused (new_button t)" "\<not> manager (new_button t)" "state (new_button t) = Idle"
  "\<not> isHovered (new_button t)" "\<not> isPressed (new_button t)" "\<not> ignoreLeave (new_button t)"
  by (simp_all add: new_button_def)


lemma manager_register_one [simp]:
  "manager (heap (register_one c w) x) = (x = c \<or> manager (heap w x))"
  by (simp add: register_one_def setManager_def)

lemma manager_unregister_one [simp]:
  "manager (heap (unregister_one c w) x) = manager (heap w x)"
  by (simp add: unregister_one_def Let_def)

lemma isFocused_clearFocus:
  "isFocused (heap (clearFocus w) x) =
     (if focused w = Some x \<and> takes_focus (heap w x) then False else isFocused (heap w x))"
  by (auto simp: clearFocus_def split: option.split)

lemma isFocused_setFocus:
  "isFocused (heap (setFocus c w) x) =
     (if focused w = Some c then isFocused (heap w x)
      else if x = c \<and> takes_focus (heap w c) then True
      else if focused w = Some x \<and> takes_focus (heap w x) then False
      else isFocused (heap w x))"
  by (auto simp: setFocus_def Let_def takes_focus_def split: option.split)

lemma isFocused_unregister_one:
  "isFocused (heap (unregister_one c w) x) =
     (if currentTabIndex w = tabStopIndex (heap w c) then isFocused (heap (clearFocus w) x)
      else isFocused (heap w x))"
  by (simp add: unregister_one_def Let_def)

lemma currentTabIndex_onPointerDown:
  "currentTabIndex (onPointerDown c w) =
     (if cls (heap w c) \<noteq> Component \<and> enabled (heap w c) \<and> manager (heap w c)
         \<and> focused w \<noteq> Some c
      then tabStopIndex (heap w c) else currentTabIndex w)"
  by (simp add: onPointerDown_def Let_def currentTabIndex_setFocus)

lemma register_Cons [simp]: "register (c # cs) w = register cs (register_one c w)"
  by (simp add: register_def)

lemma register_Nil [simp]: "register [] w = w"
  by (simp add: register_def)

lemma unregister_Cons [simp]: "unregister (c # cs) w = unregister cs (unregister_one c w)"
  by (simp add: unregister_def)

lemma unregister_Nil [simp]: "unregister [] w = w"
  by (simp add: unregister_def)

text \<open>
  C8 (as amended). Starting from a new manager, after every call of a sequence of
  \<open>register\<close>, \<open>unregister\<close>, \<open>setFocus\<close>, \<open>clearFocus\<close>, \<open>moveFocus\<close> and widget
  pointer-down calls in which \<open>setFocus\<close> is only ever given a registered widget (directly,
  or by the pointer-down handler of an enabled widget that holds the back-reference),
  \<open>currentTabIndex\<close> is \<open>- 1\<close> or a key of the registry. As stated, without the condition,
  the claim fails: a widget that was registered and unregistered again keeps its
  back-reference, and its pointer-down handler sets \<open>currentTabIndex\<close> to its tab-stop
  index, which is no key of the registry.
\<close>

theorem current_index_registered:
  assumes "calls_registered cs (new_manager h)"
  shows "current_registered (run (take n cs) (new_manager h))"
  using assms by (intro current_registered_run calls_registered_take) simp_all

theorem current_index_registered_counterexample:
  "\<not> current_registered
       (run [Register [0], Unregister [0], PointerDown 0] (new_manager heap_025))"
  by (simp add: current_registered_def currentTabIndex_onPointerDown focused_def)

theorem current_index_registered_witness:
  "calls_registered [Register [0, 1], SetFocus 1, PointerDown 0, MoveFocus True, Unregister [1]]
     (new_manager heap_025)
   \<and> current_registered
       (run (take 3 [Register [0, 1], SetFocus 1, PointerDown 0, MoveFocus True, Unregister [1]])
          (new_manager heap_025))"
proof -
  have a: "calls_registered
     [Register [0, 1], SetFocus 1, PointerDown 0, MoveFocus True, Unregister [1]]
     (new_manager heap_025)"
    by (simp add: is_registered_def)
  show ?thesis using current_index_registered [OF a, of 3] a by simp
qed


subsection \<open>Focus exclusion\<close>

lemma takes_focus_frame [simp]:
  "takes_focus (heap (focus c w) x) = takes_focus (heap w x)"
  "takes_focus (heap (loseFocus c w) x) = takes_focus (heap w x)"
  "takes_focus (heap (setFocus c w) x) = takes_focus (heap w x)"
  "takes_focus (heap (clearFocus w) x) = takes_focus (heap w x)"
  "takes_focus (heap (moveFocus b w) x) = takes_focus (heap w x)"
  "takes_focus (heap (register_one c w) x) = takes_focus (heap w x)"
  "takes_focus (heap (unregister_one c w) x) = takes_focus (heap w x)"
  "takes_focus (heap (beforeSetFocus c w) x) = takes_focus (heap w x)"
  "takes_focus (heap (onPointerDown c w) x) = takes_focus (heap w x)"
  by (simp_all add: takes_focus_def)

lemma isFocused_onPointerDown:
  "isFocused (heap (onPointerDown c w) x) =
     (if cls (heap w c) = Component \<or> \<not> enabled (heap w c) then isFocused (heap w x)
      else if manager (heap w c) then isFocused (heap (setFocus c (beforeSetFocus c w)) x)
      else isFocused (heap (beforeSetFocus c w) x))"
  by (simp add: onPointerDown_def Let_def)

lemma focused_setFocus: "is_registered c w \<Longrightarrow> focused (setFocus c w) = Some c"
  by (auto simp: focused_def currentTabIndex_setFocus is_registered_def)

lemma setFocus_owned:
  assumes "is_registered c w"
    and "\<forall>x. isFocused (heap w x) \<longrightarrow> takes_focus (heap w x) \<and> (x = c \<or> focused w = Some x)"
  shows "focus_owned (setFocus c w)"
proof -
  have new: "focused (setFocus c w) = Some c" using assms(1) by (rule focused_setFocus)
  have "takes_focus (heap (setFocus c w) x) \<and> focused (setFocus c w) = Some x"
    if f: "isFocused (heap (setFocus c w) x)" for x
  proof (cases "focused w = Some c")
    case True
    then have same: "setFocus c w = w" by (simp add: setFocus_def)
    with f have "isFocused (heap w x)" by simp
    with assms(2) have "takes_focus (heap w x)" "x = c \<or> focused w = Some x" by auto
    with True same show ?thesis by auto
  next
    case False
    show ?thesis
    proof (cases "x = c")
      case True
      have "takes_focus (heap w c)"
      proof (rule ccontr)
        assume n: "\<not> takes_focus (heap w c)"
        with f False True have "isFocused (heap w c)"
          by (simp add: isFocused_setFocus split: if_splits)
        with assms(2) n show False by blast
      qed
      with True new show ?thesis by simp
    next
      case nc: False
      show ?thesis
      proof (cases "focused w = Some x \<and> takes_focus (heap w x)")
        case True
        with f False nc show ?thesis by (simp add: isFocused_setFocus)
      next
        case nx: False
        with f False nc have "isFocused (heap w x)"
          by (simp add: isFocused_setFocus split: if_splits)
        with assms(2) nc nx show ?thesis by blast
      qed
    qed
  qed
  then show ?thesis by (simp add: focus_owned_def)
qed

lemma focus_inv_owned:
  assumes "components_consistent w" "snd ` set (components w) \<subseteq> S"
    and "inj_on (\<lambda>c. tabStopIndex (heap w c)) S"
    and "list_all (\<lambda>(k, c). manager (heap w c)) (components w)"
    and "is_registered c w"
    and "\<forall>x. isFocused (heap w x) \<longrightarrow> takes_focus (heap w x) \<and> (x = c \<or> focused w = Some x)"
  shows "focus_inv S (setFocus c w)"
  using assms(1-4) setFocus_owned [OF assms(5,6)] by (simp add: focus_inv_def)

lemma focus_inv_setFocus:
  assumes "focus_inv S w" "is_registered c w"
  shows "focus_inv S (setFocus c w)"
proof -
  have "\<forall>x. isFocused (heap w x) \<longrightarrow> takes_focus (heap w x) \<and> (x = c \<or> focused w = Some x)"
    using assms(1) by (simp add: focus_inv_def focus_owned_def)
  with assms show ?thesis by (intro focus_inv_owned) (simp_all add: focus_inv_def)
qed

lemma clearFocus_nobody: "focus_owned w \<Longrightarrow> \<not> isFocused (heap (clearFocus w) x)"
  by (auto simp: focus_owned_def isFocused_clearFocus)

lemma focus_inv_clearFocus: "focus_inv S w \<Longrightarrow> focus_inv S (clearFocus w)"
  using clearFocus_nobody [of w] by (auto simp: focus_inv_def focus_owned_def)

lemma focus_inv_register_one:
  assumes "focus_inv S w" "c \<in> S"
  shows "focus_inv S (register_one c w)"
proof -
  have cons: "components_consistent w" and sub: "snd ` set (components w) \<subseteq> S"
    and inj: "inj_on (\<lambda>c. tabStopIndex (heap w c)) S"
    and man: "list_all (\<lambda>(k, c). manager (heap w c)) (components w)"
    and foc: "\<And>x. isFocused (heap w x) \<Longrightarrow> takes_focus (heap w x) \<and> focused w = Some x"
    using assms(1) by (auto simp: focus_inv_def focus_owned_def)
  have "snd ` set (components (register_one c w)) \<subseteq> S"
    using sub assms(2) by (auto dest!: update_set_cases)
  moreover have "list_all (\<lambda>(k, x). manager (heap (register_one c w) x))
                   (components (register_one c w))"
    using man by (auto simp: list_all_iff dest!: update_set_cases)
  moreover have "focused (register_one c w) = Some x" if "isFocused (heap w x)" for x
  proof -
    have fx: "map_of (components w) (currentTabIndex w) = Some x"
      using foc [OF that] by (simp add: focused_def)
    then have tx: "tabStopIndex (heap w x) = currentTabIndex w"
      using cons by (rule consistent_lookup [rotated])
    have xS: "x \<in> S" using fx sub by (force dest!: map_of_SomeD)
    show ?thesis
    proof (cases "currentTabIndex w = tabStopIndex (heap w c)")
      case True
      with tx inj xS assms(2) have "x = c" by (auto dest: inj_onD)
      with True show ?thesis by (simp add: focused_def update_conv')
    next
      case False
      with fx show ?thesis by (simp add: focused_def update_conv')
    qed
  qed
  ultimately show ?thesis
    using cons inj foc by (auto simp: focus_inv_def focus_owned_def consistent_register_one)
qed

lemma focus_inv_unregister_one:
  assumes "focus_inv S w"
  shows "focus_inv S (unregister_one c w)"
proof -
  have cons: "components_consistent w" and sub: "snd ` set (components w) \<subseteq> S"
    and inj: "inj_on (\<lambda>c. tabStopIndex (heap w c)) S"
    and man: "list_all (\<lambda>(k, c). manager (heap w c)) (components w)"
    and own: "focus_owned w"
    and foc: "\<And>x. isFocused (heap w x) \<Longrightarrow> takes_focus (heap w x) \<and> focused w = Some x"
    using assms(1) by (auto simp: focus_inv_def focus_owned_def)
  have "snd ` set (components (unregister_one c w)) \<subseteq> S"
    using sub by (auto dest!: delete_set_subset)
  moreover have "list_all (\<lambda>(k, x). manager (heap (unregister_one c w) x))
                   (components (unregister_one c w))"
    using man by (auto simp: list_all_iff dest!: delete_set_subset)
  moreover have "takes_focus (heap w x) \<and> focused (unregister_one c w) = Some x"
    if "isFocused (heap (unregister_one c w) x)" for x
  proof (cases "currentTabIndex w = tabStopIndex (heap w c)")
    case True
    with that clearFocus_nobody [OF own, of x] show ?thesis
      by (simp add: isFocused_unregister_one)
  next
    case False
    with that have "isFocused (heap w x)" by (simp add: isFocused_unregister_one)
    with foc False show ?thesis by (simp add: focused_def)
  qed
  ultimately show ?thesis
    using cons inj by (auto simp: focus_inv_def focus_owned_def consistent_unregister_one)
qed

lemma focus_inv_register:
  "focus_inv S w \<Longrightarrow> set cs \<subseteq> S \<Longrightarrow> focus_inv S (register cs w)"
  by (induction cs arbitrary: w) (simp_all add: focus_inv_register_one)

lemma focus_inv_unregister:
  "focus_inv S w \<Longrightarrow> focus_inv S (unregister cs w)"
  by (induction cs arbitrary: w) (simp_all add: focus_inv_unregister_one)

lemma focus_inv_moveFocus:
  assumes "focus_inv S w"
  shows "focus_inv S (moveFocus b w)"
proof -
  have "components_consistent w" using assms by (simp add: focus_inv_def)
  then consider "moveFocus b w = w"
    | c where "is_registered c w" "moveFocus b w = setFocus c w"
    using moveFocus_cases [of w b] by blast
  then show ?thesis by cases (simp_all add: assms focus_inv_setFocus)
qed

lemma registered_manager:
  "list_all (\<lambda>(k, c). manager (heap w c)) (components w) \<Longrightarrow> is_registered c w
     \<Longrightarrow> manager (heap w c)"
  by (auto simp: is_registered_def list_all_iff dest!: map_of_SomeD)

lemma focus_inv_onPointerDown:
  assumes "focus_inv S w" "call_exclusive (PointerDown c) w"
  shows "focus_inv S (onPointerDown c w)"
proof (cases "cls (heap w c) = Component \<or> \<not> enabled (heap w c)")
  case True
  then have "onPointerDown c w = w" by (auto simp: onPointerDown_def)
  with assms(1) show ?thesis by simp
next
  case False
  let ?w1 = "beforeSetFocus c w"
  have man: "list_all (\<lambda>(k, c). manager (heap w c)) (components w)"
    and own: "focus_owned w"
    using assms(1) by (simp_all add: focus_inv_def)
  have parts: "components_consistent ?w1" "snd ` set (components ?w1) \<subseteq> S"
    "inj_on (\<lambda>c. tabStopIndex (heap ?w1 c)) S"
    "list_all (\<lambda>(k, c). manager (heap ?w1 c)) (components ?w1)"
    using assms(1) by (simp_all add: focus_inv_def components_consistent_def)
  show ?thesis
  proof (cases "manager (heap w c) \<or> focuses_itself (heap w c)")
    case True
    with False assms(2) have reg: "is_registered c w" by auto
    with man have "manager (heap w c)" by (rule registered_manager)
    with False have eq: "onPointerDown c w = setFocus c ?w1"
      by (simp add: onPointerDown_def Let_def)
    have "\<forall>x. isFocused (heap ?w1 x) \<longrightarrow>
            takes_focus (heap ?w1 x) \<and> (x = c \<or> focused ?w1 = Some x)"
      using own False by (auto simp: isFocused_beforeSetFocus focus_owned_def takes_focus_def)
    with parts reg show ?thesis unfolding eq by (intro focus_inv_owned) simp_all
  next
    case nm: False
    with False have eq: "onPointerDown c w = ?w1"
      by (simp add: onPointerDown_def Let_def)
    have "focus_owned ?w1"
      using own nm by (simp add: focus_owned_def isFocused_beforeSetFocus)
    with parts show ?thesis unfolding eq by (simp add: focus_inv_def)
  qed
qed

lemma focus_inv_step:
  "focus_inv S w \<Longrightarrow> call_exclusive a w \<Longrightarrow> set (widgets_of a) \<subseteq> S
     \<Longrightarrow> focus_inv S (step a w)"
  by (cases a)
    (simp_all add: focus_inv_register focus_inv_unregister focus_inv_setFocus
       focus_inv_clearFocus focus_inv_moveFocus focus_inv_onPointerDown)

lemma focus_inv_run:
  "focus_inv S w \<Longrightarrow> calls_exclusive cs w \<Longrightarrow> set (calls_widgets cs) \<subseteq> S
     \<Longrightarrow> focus_inv S (run cs w)"
  by (induction cs arbitrary: w) (simp_all add: focus_inv_step calls_widgets_def)

lemma calls_exclusive_take:
  "calls_exclusive cs w \<Longrightarrow> calls_exclusive (take n cs) w"
proof (induction cs arbitrary: w n)
  case Nil
  then show ?case by simp
next
  case (Cons a as)
  then show ?case by (cases n) simp_all
qed

lemma all_equal_short:
  "distinct xs \<Longrightarrow> (\<And>x. x \<in> set xs \<Longrightarrow> x = a) \<Longrightarrow> length xs \<le> 1"
  by (cases xs; cases "tl xs") auto

lemma focus_inv_exclusive:
  assumes "focus_inv S w"
  shows "focus_exclusive w"
proof (cases "focused w")
  case None
  with assms have "filter (\<lambda>c. isFocused (heap w c)) (registered w) = []"
    by (auto simp: focus_inv_def focus_owned_def filter_empty_conv)
  then show ?thesis by (simp add: focus_exclusive_def)
next
  case (Some a)
  have "length (filter (\<lambda>c. isFocused (heap w c)) (registered w)) \<le> 1"
  proof (rule all_equal_short [of _ a])
    show "distinct (filter (\<lambda>c. isFocused (heap w c)) (registered w))"
      by (simp add: registered_def)
  next
    fix x assume "x \<in> set (filter (\<lambda>c. isFocused (heap w c)) (registered w))"
    with assms Some show "x = a" by (auto simp: focus_inv_def focus_owned_def)
  qed
  then show ?thesis by (simp add: focus_exclusive_def)
qed

lemma calls_widgets_take: "set (calls_widgets (take n cs)) \<subseteq> set (calls_widgets cs)"
  by (auto simp: calls_widgets_def dest: in_set_takeD)

lemma heap_dup_simps [simp]:
  "heap_dup 0 = new_button 0" "heap_dup (Suc 0) = new_button 0" "heap_dup 2 = new_button 1"
  by (simp_all add: heap_dup_def)

lemma heap_unfocused [simp]:
  "\<not> isFocused (heap_025 c)" "\<not> isFocused (heap_dup c)" "\<not> isFocused (heap_mixed c)"
  by (simp_all add: heap_025_def heap_dup_def heap_mixed_def new_widget_def)

lemma new_widget_fields [simp]:
  "cls (new_widget k t) = k" "tabStopIndex (new_widget k t) = t" "enabled (new_widget k t)"
  "\<not> isFocused (new_widget k t)" "\<not> manager (new_widget k t)"
  by (simp_all add: new_widget_def)

lemma heap_mixed_simps [simp]:
  "heap_mixed 0 = new_button 0" "heap_mixed (Suc 0) = new_widget Switch 1"
  "heap_mixed 2 = new_widget Slider 2" "heap_mixed 3 = new_widget TextInput 3"
  "heap_mixed 4 = new_widget Numeric 4" "heap_mixed 5 = new_widget Checkbox 5"
  by (simp_all add: heap_mixed_def)

text \<open>
  C1 (as amended). Take a new manager over widgets none of which is focused, and a sequence
  of \<open>register\<close>, \<open>setFocus\<close> and \<open>unregister\<close> calls (\<open>clearFocus\<close>, \<open>moveFocus\<close> and
  pointer-down calls may occur too) over widgets with pairwise distinct tab-stop indices,
  in which a widget's \<open>focus\<close> only runs while the widget is registered: \<open>setFocus\<close> is only
  ever given a widget that is registered at that moment (directly, or by the pointer-down
  handler of an enabled widget that holds the back-reference), and an enabled text input or
  numeric input, whose pointer-down handler calls \<open>focus\<close> itself, only gets a pointer-down
  while it is registered. Then after every call at most one registered widget reports
  \<open>focused = true\<close>. As stated, for every sequence, the claim fails: \<open>setFocus\<close> on two
  unregistered widgets that are registered afterwards, a widget whose registry entry was
  overwritten by another one with the same index while it had the focus, two widgets
  focused before they are registered, or two text inputs that got a pointer-down before
  they are registered leave two registered widgets focused.
\<close>

theorem focus_mutual_exclusion:
  assumes "inj_on (\<lambda>c. tabStopIndex (h c)) (set (calls_widgets cs))"
    and "\<forall>c. \<not> isFocused (h c)"
    and "calls_exclusive cs (new_manager h)"
  shows "focus_exclusive (run (take n cs) (new_manager h))"
proof -
  let ?S = "set (calls_widgets cs)"
  have "focus_inv ?S (new_manager h)"
    using assms(1,2) by (simp add: focus_inv_def focus_owned_def)
  then have "focus_inv ?S (run (take n cs) (new_manager h))"
    using assms(3) calls_widgets_take [of n cs]
    by (intro focus_inv_run calls_exclusive_take) auto
  then show ?thesis by (rule focus_inv_exclusive)
qed

theorem focus_mutual_exclusion_counterexample:
  "\<not> focus_exclusive (run [SetFocus 0, SetFocus 1, Register [0, 1]] (new_manager heap_025))
   \<and> calls_exclusive [Register [0], SetFocus 0, Register [1], Register [2], SetFocus 2, Register [0]]
        (new_manager heap_dup)
   \<and> \<not> focus_exclusive
         (run [Register [0], SetFocus 0, Register [1], Register [2], SetFocus 2, Register [0]]
            (new_manager heap_dup))
   \<and> \<not> focus_exclusive (run [Register [0, 1]] (focus 1 (focus 0 (new_manager heap_025))))
   \<and> calls_registered [PointerDown 3, PointerDown 4, Register [3, 4]] (new_manager heap_mixed)
   \<and> \<not> focus_exclusive
         (run [PointerDown 3, PointerDown 4, Register [3, 4]] (new_manager heap_mixed))"
  by (simp add: focus_exclusive_def registered_def isFocused_setFocus focused_def
        currentTabIndex_setFocus is_registered_def takes_focus_def isFocused_onPointerDown
        isFocused_beforeSetFocus focuses_itself_def)

theorem focus_mutual_exclusion_witness:
  "inj_on (\<lambda>c. tabStopIndex (heap_mixed c))
     (set (calls_widgets
        [Register [0, 1, 3], PointerDown 3, SetFocus 1, PointerDown 0, Unregister [1], SetFocus 3]))
   \<and> (\<forall>c. \<not> isFocused (heap_mixed c))
   \<and> calls_exclusive
        [Register [0, 1, 3], PointerDown 3, SetFocus 1, PointerDown 0, Unregister [1], SetFocus 3]
        (new_manager heap_mixed)
   \<and> focus_exclusive
        (run (take 4
           [Register [0, 1, 3], PointerDown 3, SetFocus 1, PointerDown 0, Unregister [1], SetFocus 3])
           (new_manager heap_mixed))"
proof -
  let ?cs = "[Register [0, 1, 3], PointerDown 3, SetFocus 1, PointerDown 0, Unregister [1],
              SetFocus 3]"
  have a: "inj_on (\<lambda>c. tabStopIndex (heap_mixed c)) (set (calls_widgets ?cs))"
    by (simp add: calls_widgets_def inj_on_def)
  have b: "\<forall>c. \<not> isFocused (heap_mixed c)" by simp
  have c: "calls_exclusive ?cs (new_manager heap_mixed)"
    by (simp add: is_registered_def currentTabIndex_setFocus currentTabIndex_onPointerDown
          focused_def focuses_itself_def)
  show ?thesis using focus_mutual_exclusion [OF a b c, of 4] a b c by blast
qed


subsection \<open>setEnabled and focus on a disabled widget\<close>

lemma onEnabled_frame [simp]:
  "components (onEnabled c w) = components w"
  "currentTabIndex (onEnabled c w) = currentTabIndex w"
  "heap (onEnabled c w) = heap w"
  by (cases "cls (heap w c)"; simp add: onEnabled_def)+

lemma onDisabled_frame [simp]:
  "components (onDisabled c w) = components w"
  "currentTabIndex (onDisabled c w) = currentTabIndex w"
  "tabStopIndex (heap (onDisabled c w) x) = tabStopIndex (heap w x)"
  "cls (heap (onDisabled c w) x) = cls (heap w x)"
  "manager (heap (onDisabled c w) x) = manager (heap w x)"
  "enabled (heap (onDisabled c w) x) = enabled (heap w x)"
  "isPressed (heap (onDisabled c w) x) = isPressed (heap w x)"
  "ignoreLeave (heap (onDisabled c w) x) = ignoreLeave (heap w x)"
  by (cases "cls (heap w c)"; simp add: onDisabled_def)+

lemma isFocused_onDisabled:
  "\<not> enabled (heap w c) \<Longrightarrow>
     isFocused (heap (onDisabled c w) x) =
       (if x = c \<and> (cls (heap w c) = Button \<or> cls (heap w c) = Checkbox) then False
        else isFocused (heap w x))"
  by (cases "cls (heap w c)") (simp_all add: onDisabled_def takes_focus_def)

lemma isHovered_onDisabled:
  "isHovered (heap (onDisabled c w) x) =
     (if x = c \<and> cls (heap w c) = Button then False else isHovered (heap w x))"
  by (cases "cls (heap w c)") (simp_all add: onDisabled_def)

lemma Interactive_setEnabled_frame [simp]:
  "components (Interactive_setEnabled c v w) = components w"
  "currentTabIndex (Interactive_setEnabled c v w) = currentTabIndex w"
  "tabStopIndex (heap (Interactive_setEnabled c v w) x) = tabStopIndex (heap w x)"
  "cls (heap (Interactive_setEnabled c v w) x) = cls (heap w x)"
  "manager (heap (Interactive_setEnabled c v w) x) = manager (heap w x)"
  "isPressed (heap (Interactive_setEnabled c v w) x) = isPressed (heap w x)"
  "ignoreLeave (heap (Interactive_setEnabled c v w) x) = ignoreLeave (heap w x)"
  by (simp_all add: Interactive_setEnabled_def UIComponent_setEnabled_def Let_def
       )

lemma enabled_Interactive_setEnabled [simp]:
  "enabled (heap (Interactive_setEnabled c v w) x) = (if x = c then v else enabled (heap w x))"
  by (auto simp: Interactive_setEnabled_def UIComponent_setEnabled_def Let_def)

lemma isFocused_Interactive_setEnabled [simp]:
  "isFocused (heap (Interactive_setEnabled c v w) x) =
     (if x = c \<and> \<not> v \<and> enabled (heap w c) then False else isFocused (heap w x))"
  by (auto simp: Interactive_setEnabled_def UIComponent_setEnabled_def Let_def
        isFocused_onDisabled takes_focus_def)

lemma isHovered_Interactive_setEnabled [simp]:
  "isHovered (heap (Interactive_setEnabled c v w) x) =
     (if x = c \<and> \<not> v \<and> enabled (heap w c) \<and> cls (heap w c) = Button then False
      else isHovered (heap w x))"
  by (auto simp: Interactive_setEnabled_def UIComponent_setEnabled_def Let_def
        isHovered_onDisabled)

lemma setEnabled_frame [simp]:
  "components (setEnabled c v w) = components w"
  "currentTabIndex (setEnabled c v w) = currentTabIndex w"
  "tabStopIndex (heap (setEnabled c v w) x) = tabStopIndex (heap w x)"
  "cls (heap (setEnabled c v w) x) = cls (heap w x)"
  "manager (heap (setEnabled c v w) x) = manager (heap w x)"
  "isPressed (heap (setEnabled c v w) x) = isPressed (heap w x)"
  "ignoreLeave (heap (setEnabled c v w) x) = ignoreLeave (heap w x)"
  "enabled (heap (setEnabled c v w) x) = (if x = c then v else enabled (heap w x))"
  "isFocused (heap (setEnabled c v w) x) =
     (if x = c \<and> \<not> v \<and> enabled (heap w c) then False else isFocused (heap w x))"
  "isHovered (heap (setEnabled c v w) x) =
     (if x = c \<and> \<not> v \<and> enabled (heap w c) \<and> cls (heap w c) = Button then False
      else isHovered (heap w x))"
  by (cases "cls (heap w c)"; simp add: setEnabled_def)+



lemma heap_025_3 [simp]: "heap_025 3 = new_button (- 1)"
  by (simp add: heap_025_def)








subsection \<open>moveFocus and the focus of the target\<close>











section \<open>Properties of UIButton\<close>


lemma state_updateState:
  "state (updateState x) =
     (if \<not> enabled x then Disabled else if isPressed x then Pressed
      else if isHovered x then Hovered else Idle)"
  by (simp add: updateState_def)

lemma state_setEnabled:
  "cls (heap w c) = Button \<Longrightarrow>
     state (heap (setEnabled c v w) c) =
       (if \<not> v then Disabled else if isPressed (heap w c) then Pressed
        else if isHovered (heap (setEnabled c v w) c) then Hovered else Idle)"
  by (simp add: setEnabled_def state_updateState)

lemma emitted_focus:
  "\<exists>es. focus_events es \<and> emitted (focus c w) = emitted w @ es"
  by (cases "cls (heap w c)") (auto simp: focus_def Let_def focus_events_def)

lemma emitted_loseFocus:
  "\<exists>es. focus_events es \<and> emitted (loseFocus c w) = emitted w @ es"
  by (cases "cls (heap w c)") (auto simp: loseFocus_def Let_def focus_events_def)

lemma focus_events_append: "focus_events xs \<Longrightarrow> focus_events ys \<Longrightarrow> focus_events (xs @ ys)"
  by (simp add: focus_events_def)

lemma emitted_setFocus:
  "\<exists>es. focus_events es \<and> emitted (setFocus c w) = emitted w @ es"
proof (cases "focused w = Some c")
  case True
  then have "emitted (setFocus c w) = emitted w @ []" by (simp add: setFocus_def)
  moreover have "focus_events []" by (simp add: focus_events_def)
  ultimately show ?thesis by blast
next
  case False
  define w1 where "w1 = (case focused w of None \<Rightarrow> w | Some p \<Rightarrow> loseFocus p w)"
  define w2 where "w2 = w1\<lparr>currentTabIndex := tabStopIndex (heap w1 c)\<rparr>"
  have s: "setFocus c w = focus c w2"
    using False by (simp add: setFocus_def w1_def w2_def Let_def)
  obtain es1 where e1: "focus_events es1" "emitted w1 = emitted w @ es1"
  proof (cases "focused w")
    case None
    then have "emitted w1 = emitted w @ []" by (simp add: w1_def)
    moreover have "focus_events []" by (simp add: focus_events_def)
    ultimately show ?thesis using that by blast
  next
    case (Some p)
    then have "w1 = loseFocus p w" by (simp add: w1_def)
    with emitted_loseFocus [of p w] show ?thesis using that by auto
  qed
  obtain es2 where e2: "focus_events es2" "emitted (focus c w2) = emitted w2 @ es2"
    using emitted_focus [of c w2] by blast
  have "emitted w2 = emitted w1" by (simp add: w2_def)
  with e1 e2 s have "emitted (setFocus c w) = emitted w @ (es1 @ es2)" by simp
  with focus_events_append [OF e1(1) e2(1)] show ?thesis by blast
qed

lemma onPointerDown_enabled:
  assumes "cls (heap w c) = Button" "enabled (heap w c)"
  shows "\<exists>es. focus_events es \<and> emitted (onPointerDown c w) = emitted w @ (c, UIButtonDown) # es"
    and "isPressed (heap (onPointerDown c w) c)"
    and "isHovered (heap (onPointerDown c w) c) = isHovered (heap w c)"
    and "ignoreLeave (heap (onPointerDown c w) c) = ignoreLeave (heap w c)"
proof -
  show "\<exists>es. focus_events es \<and> emitted (onPointerDown c w) = emitted w @ (c, UIButtonDown) # es"
  proof (cases "manager (heap w c)")
    case True
    then have "onPointerDown c w = setFocus c (press c w)"
      using assms by (simp add: onPointerDown_def beforeSetFocus_Button Let_def)
    with emitted_setFocus [of c "press c w"] show ?thesis by auto
  next
    case False
    then have "emitted (onPointerDown c w) = emitted w @ (c, UIButtonDown) # []"
      using assms by (simp add: onPointerDown_def beforeSetFocus_Button Let_def)
    moreover have "focus_events []" by (simp add: focus_events_def)
    ultimately show ?thesis by blast
  qed
  show "isPressed (heap (onPointerDown c w) c)"
    "isHovered (heap (onPointerDown c w) c) = isHovered (heap w c)"
    "ignoreLeave (heap (onPointerDown c w) c) = ignoreLeave (heap w c)"
    using assms by (simp_all add: onPointerDown_def beforeSetFocus_Button Let_def)
qed

lemma onUnhover_enabled:
  assumes "cls (heap w c) = Button" "enabled (heap w c)" "\<not> ignoreLeave (heap w c)"
  shows "emitted (onUnhover c w) = emitted w @ [(c, UIButtonUnhovered)]"
    and "\<not> isHovered (heap (onUnhover c w) c)"
    and "isPressed (heap (onUnhover c w) c) = isPressed (heap w c)"
    and "enabled (heap (onUnhover c w) c)" and "cls (heap (onUnhover c w) c) = Button"
  using assms by (simp_all add: onUnhover_def)

lemma onClick_enabled:
  assumes "cls (heap w c) = Button" "enabled (heap w c)"
  shows "emitted (onClick c w) =
           emitted w @ (c, UIButtonUp) #
             (if isPressed (heap w c) \<and> isHovered (heap w c)
              then [(c, UIButtonClicked), (c, CallbackRun)] else [])"
  using assms by (simp add: onClick_def Let_def)

lemma focus_events_no_click: "focus_events es \<Longrightarrow> (c, UIButtonClicked) \<notin> set es"
  by (auto simp: focus_events_def list_all_iff)

lemma focus_events_count: "focus_events es \<Longrightarrow> count_list es (c, UIButtonClicked) = 0"
  by (simp add: focus_events_no_click)


lemma emitted_since_append [simp]: "emitted w' = emitted w @ es \<Longrightarrow> emitted_since w w' = es"
  by (simp add: emitted_since_def)

lemma down_leave_up:
  assumes "cls (heap w c) = Button" "enabled (heap w c)" "\<not> ignoreLeave (heap w c)"
  shows "(c, UIButtonClicked) \<notin> set (emitted_since w (onClick c (onUnhover c (onPointerDown c w))))"
proof -
  let ?w1 = "onPointerDown c w"
  let ?w2 = "onUnhover c ?w1"
  obtain es where es: "focus_events es" "emitted ?w1 = emitted w @ (c, UIButtonDown) # es"
    using onPointerDown_enabled(1) [OF assms(1,2)] by blast
  have b1: "cls (heap ?w1 c) = Button" "enabled (heap ?w1 c)" "\<not> ignoreLeave (heap ?w1 c)"
    using assms onPointerDown_enabled(4) [OF assms(1,2)] by simp_all
  have e2: "emitted ?w2 = emitted ?w1 @ [(c, UIButtonUnhovered)]"
    and h2: "\<not> isHovered (heap ?w2 c)"
    and b2: "cls (heap ?w2 c) = Button" "enabled (heap ?w2 c)"
    using onUnhover_enabled [OF b1] by simp_all
  have "emitted (onClick c ?w2) = emitted ?w2 @ [(c, UIButtonUp)]"
    using onClick_enabled [OF b2] h2 by simp
  with e2 es(2) have "emitted (onClick c ?w2)
      = emitted w @ ((c, UIButtonDown) # es @ [(c, UIButtonUnhovered), (c, UIButtonUp)])"
    by simp
  then have "emitted_since w (onClick c ?w2)
      = (c, UIButtonDown) # es @ [(c, UIButtonUnhovered), (c, UIButtonUp)]"
    by (rule emitted_since_append)
  with focus_events_no_click [OF es(1), of c] show ?thesis by simp
qed

lemma down_up_hovered:
  assumes "cls (heap w c) = Button" "enabled (heap w c)" "isHovered (heap w c)"
  shows "count_list (emitted_since w (onClick c (onPointerDown c w))) (c, UIButtonClicked) = 1"
proof -
  let ?w1 = "onPointerDown c w"
  obtain es where es: "focus_events es" "emitted ?w1 = emitted w @ (c, UIButtonDown) # es"
    using onPointerDown_enabled(1) [OF assms(1,2)] by blast
  have b1: "cls (heap ?w1 c) = Button" "enabled (heap ?w1 c)"
    using assms by simp_all
  have p: "isPressed (heap ?w1 c)" "isHovered (heap ?w1 c)"
    using onPointerDown_enabled(2,3) [OF assms(1,2)] assms(3) by simp_all
  have "emitted (onClick c ?w1)
      = emitted ?w1 @ [(c, UIButtonUp), (c, UIButtonClicked), (c, CallbackRun)]"
    using onClick_enabled [OF b1] p by simp
  with es(2) have "emitted (onClick c ?w1)
      = emitted w @ ((c, UIButtonDown) # es @ [(c, UIButtonUp), (c, UIButtonClicked), (c, CallbackRun)])"
    by simp
  then have "emitted_since w (onClick c ?w1)
      = (c, UIButtonDown) # es @ [(c, UIButtonUp), (c, UIButtonClicked), (c, CallbackRun)]"
    by (rule emitted_since_append)
  with focus_events_count [OF es(1), of c] show ?thesis by simp
qed

lemma up_events:
  assumes "cls (heap w c) = Button" "enabled (heap w c)"
  shows "count_list (emitted_since w (onClick c w)) (c, UIButtonUp) = 1"
    and "((c, UIButtonClicked) \<in> set (emitted_since w (onClick c w)))
           = (isPressed (heap w c) \<and> isHovered (heap w c))"
    and "count_list (emitted_since w (onClick c w)) (c, UIButtonClicked) \<le> 1"
proof -
  have "emitted_since w (onClick c w) = (c, UIButtonUp) #
             (if isPressed (heap w c) \<and> isHovered (heap w c)
              then [(c, UIButtonClicked), (c, CallbackRun)] else [])"
    using onClick_enabled [OF assms] by (rule emitted_since_append)
  then show "count_list (emitted_since w (onClick c w)) (c, UIButtonUp) = 1"
    and "((c, UIButtonClicked) \<in> set (emitted_since w (onClick c w)))
           = (isPressed (heap w c) \<and> isHovered (heap w c))"
    and "count_list (emitted_since w (onClick c w)) (c, UIButtonClicked) \<le> 1"
    by simp_all
qed

text \<open>
  C5 (as amended). For an enabled button: when the debounce flag \<open>ignoreLeave\<close> is not set
  (no pointer-up in the preceding 50 ms), pointer-down, pointer-leave, pointer-up emit no
  \<open>UIButtonClicked\<close>; when the button is hovered, pointer-down then pointer-up emit exactly
  one \<open>UIButtonClicked\<close>; a pointer-up emits exactly one \<open>UIButtonUp\<close>, and it emits
  \<open>UIButtonClicked\<close> iff the button was pressed and is hovered at release. As stated, for
  every enabled button, the first part fails: right after a click the pointer-leave is
  ignored, the button stays hovered, and the pointer-up emits a click.
\<close>

theorem click_requires_hover:
  assumes "cls (heap w c) = Button" "enabled (heap w c)"
  shows "(\<not> ignoreLeave (heap w c) \<longrightarrow>
            (c, UIButtonClicked)
              \<notin> set (emitted_since w (onClick c (onUnhover c (onPointerDown c w)))))
         \<and> (isHovered (heap w c) \<longrightarrow>
              count_list (emitted_since w (onClick c (onPointerDown c w))) (c, UIButtonClicked) = 1)
         \<and> count_list (emitted_since w (onClick c w)) (c, UIButtonUp) = 1
         \<and> (((c, UIButtonClicked) \<in> set (emitted_since w (onClick c w)))
              = (isPressed (heap w c) \<and> isHovered (heap w c)))"
  using down_leave_up [OF assms] down_up_hovered [OF assms] up_events(1,2) [OF assms]
  by blast

lemma onHover_fields:
  "cls (heap w c) = Button \<Longrightarrow> enabled (heap w c) \<Longrightarrow> isHovered (heap (onHover c w) c)"
  "cls (heap (onHover c w) x) = cls (heap w x)"
  "enabled (heap (onHover c w) x) = enabled (heap w x)"
  "ignoreLeave (heap (onHover c w) x) = ignoreLeave (heap w x)"
  "isPressed (heap (onHover c w) x) = isPressed (heap w x)"
  "manager (heap (onHover c w) x) = manager (heap w x)"
  by (simp_all add: onHover_def)

lemma onClick_fields:
  "cls (heap (onClick c w) x) = cls (heap w x)"
  "enabled (heap (onClick c w) x) = enabled (heap w x)"
  "isHovered (heap (onClick c w) x) = isHovered (heap w x)"
  "manager (heap (onClick c w) x) = manager (heap w x)"
  "ignoreLeave (heap (onClick c w) x)
     = (if x = c \<and> cls (heap w c) = Button \<and> enabled (heap w c) then True
        else ignoreLeave (heap w x))"
  "isPressed (heap (onClick c w) x)
     = (if x = c \<and> cls (heap w c) = Button \<and> enabled (heap w c) then False
        else isPressed (heap w x))"
  by (simp_all add: onClick_def Let_def)

lemma beforeSetFocus_fields:
  "isHovered (heap (beforeSetFocus c w) x) = isHovered (heap w x)"
  "ignoreLeave (heap (beforeSetFocus c w) x) = ignoreLeave (heap w x)"
  by (cases "cls (heap w c)"; simp add: beforeSetFocus_def)+

lemma onPointerDown_fields:
  "isHovered (heap (onPointerDown c w) x) = isHovered (heap w x)"
  "ignoreLeave (heap (onPointerDown c w) x) = ignoreLeave (heap w x)"
  by (simp_all add: onPointerDown_def beforeSetFocus_fields Let_def)

lemma onUnhover_ignored: "ignoreLeave (heap w c) \<Longrightarrow> onUnhover c w = w"
  by (simp add: onUnhover_def)

lemma world_clicked_flags:
  "cls (heap world_clicked 0) = Button" "enabled (heap world_clicked 0)"
  "isHovered (heap world_clicked 0)" "ignoreLeave (heap world_clicked 0)"
  by (simp_all add: world_clicked_def onClick_fields onPointerDown_fields onHover_fields)

theorem click_requires_hover_counterexample:
  "cls (heap world_clicked 0) = Button \<and> enabled (heap world_clicked 0)
   \<and> (0, UIButtonClicked)
        \<in> set (emitted_since world_clicked
                 (onClick 0 (onUnhover 0 (onPointerDown 0 world_clicked))))"
proof -
  have "ignoreLeave (heap (onPointerDown 0 world_clicked) 0)"
    by (simp add: onPointerDown_fields world_clicked_flags)
  then have u: "onUnhover 0 (onPointerDown 0 world_clicked) = onPointerDown 0 world_clicked"
    by (rule onUnhover_ignored)
  have "count_list (emitted_since world_clicked (onClick 0 (onPointerDown 0 world_clicked)))
          (0, UIButtonClicked) = 1"
    using world_clicked_flags by (intro down_up_hovered)
  then have "(0, UIButtonClicked)
      \<in> set (emitted_since world_clicked (onClick 0 (onPointerDown 0 world_clicked)))"
    by (metis count_list_0_iff zero_neq_one)
  with u show ?thesis by (simp add: world_clicked_flags)
qed

theorem click_requires_hover_witness:
  "cls (heap (onHover 0 (new_manager heap_025)) 0) = Button
   \<and> enabled (heap (onHover 0 (new_manager heap_025)) 0)
   \<and> \<not> ignoreLeave (heap (onHover 0 (new_manager heap_025)) 0)
   \<and> isHovered (heap (onHover 0 (new_manager heap_025)) 0)
   \<and> (0, UIButtonClicked)
        \<notin> set (emitted_since (onHover 0 (new_manager heap_025))
                 (onClick 0 (onUnhover 0 (onPointerDown 0 (onHover 0 (new_manager heap_025))))))
   \<and> count_list (emitted_since (onHover 0 (new_manager heap_025))
                   (onClick 0 (onPointerDown 0 (onHover 0 (new_manager heap_025)))))
        (0, UIButtonClicked) = 1"
proof -
  let ?w = "onHover 0 (new_manager heap_025)"
  have a: "cls (heap ?w 0) = Button" by (simp add: onHover_fields)
  have b: "enabled (heap ?w 0)" by (simp add: onHover_fields)
  have c: "\<not> ignoreLeave (heap ?w 0)" by (simp add: onHover_fields)
  have d: "isHovered (heap ?w 0)" by (simp add: onHover_fields)
  show ?thesis using click_requires_hover [OF a b] a b c d by blast
qed


lemma onPointerDown_disabled: "\<not> enabled (heap w c) \<Longrightarrow> onPointerDown c w = w"
  by (simp add: onPointerDown_def)

lemma disable_enable_pressed:
  assumes "cls (heap w c) = Button" "enabled (heap w c)" "isPressed (heap w c)"
  shows "state (heap (setEnabled c False w) c) = Disabled"
    and "\<not> isHovered (heap (setEnabled c False w) c)"
    and "\<not> isFocused (heap (setEnabled c False w) c)"
    and "isPressed (heap (setEnabled c False w) c)"
    and "onPointerDown c (setEnabled c False w) = setEnabled c False w"
    and "state (heap (setEnabled c True (setEnabled c False w)) c) = Pressed"
  using assms by (simp_all add: state_setEnabled onPointerDown_disabled)

lemma world_pressed_flags:
  "cls (heap world_pressed 0) = Button" "enabled (heap world_pressed 0)"
  "isHovered (heap world_pressed 0)" "isPressed (heap world_pressed 0)"
  by (simp_all add: world_pressed_def onPointerDown_fields onHover_fields
        onPointerDown_enabled(2))

text \<open>
  C2 (the code departs from the claim). A fresh button is hovered and pressed, then
  disabled: its state is \<open>disabled\<close>, the hover flag is cleared and a pointer-down changes
  nothing and emits nothing, as claimed; but \<open>onDisabled\<close> leaves \<open>isPressed\<close> set, so
  re-enabling the button recomputes the state \<open>pressed\<close>, not \<open>idle\<close>.
\<close>

theorem setEnabled_false_keeps_pressed:
  "enabled (heap world_pressed 0) \<and> isHovered (heap world_pressed 0)
   \<and> isPressed (heap world_pressed 0)
   \<and> state (heap (setEnabled 0 False world_pressed) 0) = Disabled
   \<and> \<not> isHovered (heap (setEnabled 0 False world_pressed) 0)
   \<and> isPressed (heap (setEnabled 0 False world_pressed) 0)
   \<and> onPointerDown 0 (setEnabled 0 False world_pressed) = setEnabled 0 False world_pressed
   \<and> state (heap (setEnabled 0 True (setEnabled 0 False world_pressed)) 0) = Pressed"
  using disable_enable_pressed [of world_pressed 0] world_pressed_flags by simp



theorem setEnabled_false_keeps_pressed_witness:
  "isPressed (heap (setEnabled 0 False world_pressed) 0)
   \<and> state (heap (setEnabled 0 True (setEnabled 0 False world_pressed)) 0) \<noteq> Idle"
  using setEnabled_false_keeps_pressed by simp

section \<open>Properties of UIRadioGroup\<close>

lemma fuel11: "n + 11 = Suc (Suc (Suc (Suc (Suc (Suc (Suc (Suc (Suc (Suc (Suc n))))))))))"
  by simp

lemma toggle_selected_back:
  "map_option (\<lambda>g. (checked_members g, selectedIndex g))
     (radio_run (n + 11)
        [Add 0, Add 1, Add 2, SetChecked 0 True, SetChecked 0 False]
        (new_radio False (- 1) (\<lambda>_. False)))
   = Some ([0], 0)"
  unfolding fuel11
  by (simp add: add_def new_radio_def Let_def in_range_def checked_members_def)

text \<open>
  C3 (the code departs from the claim). A group with the default configuration
  (deselection disallowed, nothing selected) gets three unchecked members, which are then
  set to \<open>true\<close> one after the other. With any budget of at least 11 nested calls the run
  ends, and all three members are checked, with \<open>selectedIndex = 2\<close>: when \<open>select\<close>
  unchecks the previous member, that member's change event reaches
  \<open>handleCheckboxChanged\<close>, which, deselection being disallowed, checks it again. The claim
  says that only the most recently selected member is checked.
\<close>

theorem radio_group_previous_stays_checked:
  "map_option (\<lambda>g. (checked_members g, selectedIndex g))
     (radio_run (n + 11)
        [Add 0, Add 1, Add 2, SetChecked 0 True, SetChecked 1 True, SetChecked 2 True]
        (new_radio False (- 1) (\<lambda>_. False)))
   = Some ([0, 1, 2], 2)"
  unfolding fuel11
  by (simp add: add_def new_radio_def Let_def in_range_def checked_members_def)

theorem radio_group_previous_stays_checked_witness:
  "map_option (\<lambda>g. (checked_members g, selectedIndex g))
     (radio_run 11
        [Add 0, Add 1, Add 2, SetChecked 0 True, SetChecked 1 True, SetChecked 2 True]
        (new_radio False (- 1) (\<lambda>_. False)))
   = Some ([0, 1, 2], 2)"
  using radio_group_previous_stays_checked [of 0] by simp

section \<open>Properties of UITabbedPanel\<close>

lemma set_if_present_then_update:
  "AList.update k v (set_if_present k u al) = AList.update k v al"
  by (simp add: set_if_present_def split: option.split)

lemma setActiveTab_unknown:
  "map_of (tabs p) tabId = None \<or> map_of (tabContents p) tabId = None
     \<Longrightarrow> setActiveTab tabId p = (False, p)"
  by (simp add: setActiveTab_def)

lemma setActiveTab_again:
  assumes "activeTabId p = Some tabId" "map_of (tabs p) tabId \<noteq> None"
    "map_of (tabContents p) tabId \<noteq> None"
  shows "setActiveTab tabId p =
           (True, p\<lparr>tabs := AList.update tabId True (tabs p),
                    tabContents := AList.update tabId True (tabContents p),
                    tab_emitted := tab_emitted p @ [TabChanged tabId]\<rparr>)"
  using assms by (simp add: setActiveTab_def Let_def set_if_present_then_update)

text \<open>
  C7 (as amended). \<open>setActiveTab\<close> with an id that is in neither map is a no-op: it returns
  \<open>false\<close> and leaves the active tab, every pane's visibility and the emitted events as
  they were. With the id of the tab that is already active (its header active and its pane
  visible) it leaves the active tab, the headers and every pane's visibility as they were,
  but it returns \<open>true\<close> and emits one more \<open>TabChanged\<close> notification: the source has no
  check for the active tab. Only the pane's own visibility flag is modelled, not that of
  the pane's children.
\<close>

theorem setActiveTab_noop_cases:
  "(map_of (tabs p) tabId = None \<or> map_of (tabContents p) tabId = None
      \<longrightarrow> setActiveTab tabId p = (False, p))
   \<and> (activeTabId p = Some tabId \<and> map_of (tabs p) tabId = Some True
        \<and> map_of (tabContents p) tabId = Some True
      \<longrightarrow> setActiveTab tabId p = (True, p\<lparr>tab_emitted := tab_emitted p @ [TabChanged tabId]\<rparr>))"
proof -
  have "setActiveTab tabId p = (True, p\<lparr>tab_emitted := tab_emitted p @ [TabChanged tabId]\<rparr>)"
    if "activeTabId p = Some tabId" "map_of (tabs p) tabId = Some True"
      "map_of (tabContents p) tabId = Some True"
    using that setActiveTab_again [of p tabId] by (simp add: update_triv)
  then show ?thesis using setActiveTab_unknown [of p tabId] by blast
qed

theorem setActiveTab_noop_cases_counterexample:
  "activeTabId panel_ab = Some ''a''
   \<and> tab_emitted (snd (setActiveTab ''a'' panel_ab)) \<noteq> tab_emitted panel_ab
   \<and> TabChanged ''a'' = last (tab_emitted (snd (setActiveTab ''a'' panel_ab)))"
  by (simp add: panel_ab_def setActiveTab_def set_if_present_def)

theorem setActiveTab_noop_cases_witness:
  "map_of (tabs panel_ab) ''c'' = None \<and> setActiveTab ''c'' panel_ab = (False, panel_ab)
   \<and> activeTabId panel_ab = Some ''a'' \<and> map_of (tabs panel_ab) ''a'' = Some True
   \<and> map_of (tabContents panel_ab) ''a'' = Some True
   \<and> setActiveTab ''a'' panel_ab
       = (True, panel_ab\<lparr>tab_emitted := tab_emitted panel_ab @ [TabChanged ''a'']\<rparr>)"
proof -
  have a: "map_of (tabs panel_ab) ''c'' = None" by (simp add: panel_ab_def)
  have b: "activeTabId panel_ab = Some ''a''" "map_of (tabs panel_ab) ''a'' = Some True"
    "map_of (tabContents panel_ab) ''a'' = Some True"
    by (simp_all add: panel_ab_def)
  show ?thesis
    using setActiveTab_noop_cases [of panel_ab "''c''"] setActiveTab_noop_cases [of panel_ab "''a''"]
      a b by blast
qed


section \<open>Properties of UINumeric\<close>




lemma num_emit_fields [simp]:
  "num_value (num_emit e n) = num_value n"
  "num_emitted (num_emit e n) = num_emitted n @ [e]"
  "inputText (num_emit e n) = inputText n"
  "isEditing (num_emit e n) = isEditing n"
  "cfg_min (num_emit e n) = cfg_min n"
  "cfg_max (num_emit e n) = cfg_max n"
  by (simp_all add: num_emit_def)

lemma clampValue_cong:
  "cfg_min n' = cfg_min n \<Longrightarrow> cfg_max n' = cfg_max n \<Longrightarrow> clampValue n' v = clampValue n v"
  by (simp add: clampValue_def)



lemma setValue_config [simp]:
  "cfg_min (setValue h v n) = cfg_min n" "cfg_max (setValue h v n) = cfg_max n"
  by (simp_all add: setValue_def Let_def emitValueChanged_def)



lemma clampValue_between:
  "cfg_min n = Some (Fin lo) \<Longrightarrow> cfg_max n = Some (Fin hi) \<Longrightarrow> lo \<le> hi
     \<Longrightarrow> clampValue n (Fin x) = Fin (max lo (min hi x))"
  by (auto simp: clampValue_def Math_max_def Math_min_def Let_def)






lemma parse_4299 [simp]: "parseNumber example_host (editing_4299 lo hi) ''4299'' = Fin 4299"
  by (simp add: parseNumber_def example_host_def editing_4299_def truthy_def trim_def
        is_space_def)

lemma editing_4299_fields [simp]:
  "num_enabled (editing_4299 lo hi)" "num_isFocused (editing_4299 lo hi)"
  "num_value (editing_4299 lo hi) = Fin 42" "inputText (editing_4299 lo hi) = ''4299''"
  "cfg_min (editing_4299 lo hi) = lo" "cfg_max (editing_4299 lo hi) = hi"
  "num_emitted (editing_4299 lo hi) = []" "isEditing (editing_4299 lo hi)"
  by (simp_all add: editing_4299_def)






end
